theory Spec2Isabelle
  imports Main "HOL-Library.Sublist" "HOL-Library.AList" "HOL-Library.Char_ord"
    "HOL-Library.List_Lexorder"
begin

section \<open>Data model\<close>

text \<open>
  The repository has two modules: \<^verbatim>\<open>src/window-runtime.mjs\<close> (run by a page: fetches the
  manifest, hashes it, stores a new version and fills its cache) and
  \<^verbatim>\<open>src/sw-runtime.mjs\<close> (run by the service worker: answers intercepted requests from
  the stored manifests and caches, and deletes caches of old versions).

  JavaScript strings are \<^typ>\<open>string\<close>; a value that may be \<^verbatim>\<open>undefined\<close> is an
  \<^typ>\<open>'a option\<close>; a rejected promise or a thrown exception is \<open>Inl\<close> of an
  \<open>error\<close>. Every operation takes the world (stores, caches, network) and returns the
  world it leaves, also when it throws.
\<close>

datatype error =
    NetworkError | TypeError | DataError | RequestFailure | ParseError | QuotaExceededError

text \<open>A \<^verbatim>\<open>Request\<close>: the fields the two modules read or set.\<close>

record request =
  url :: string
  req_method :: string
  X_Use_Fetch :: "string option"
  mode :: string
  referrer :: string
  credentials :: string
  redirect :: string
  cache_mode :: string

text \<open>
  A \<^verbatim>\<open>Response\<close>: \<open>rtype\<close> is \<^verbatim>\<open>response.type\<close>, \<open>Cache_Control\<close> and
  \<open>Date\<close> are \<^verbatim>\<open>response.headers.get(...)\<close> (\<open>None\<close> for \<^verbatim>\<open>null\<close>), \<open>Vary\<close>
  holds the field values of the \<^verbatim>\<open>Vary\<close> header, \<open>body\<close> is \<^verbatim>\<open>response.text()\<close>.
\<close>

record response =
  rtype :: string
  status :: nat
  resp_url :: string
  Cache_Control :: "string option"
  Date :: "string option"
  Vary :: "string list"
  body :: string

text \<open>\<^verbatim>\<open>response.ok\<close>: the status is in the range 200 to 299.\<close>

definition ok :: "response \<Rightarrow> bool" where
  "ok r = (200 \<le> status r \<and> status r \<le> 299)"

text \<open>\<^verbatim>\<open>Response.error()\<close>: the network-error response.\<close>

definition Response_error :: response where
  "Response_error = \<lparr>rtype = ''error'', status = 0, resp_url = '''',
     Cache_Control = None, Date = None, Vary = [], body = ''''\<rparr>"

text \<open>
  A parsed manifest, as \<^verbatim>\<open>makeManifestUrlsAbsolute\<close> builds it. \<open>fallback\<close> is a
  JavaScript object used as a dictionary: an association list in the order of
  \<^verbatim>\<open>Object.keys\<close>.
\<close>

record manifest =
  cache :: "string list"
  network :: "string list"
  fallback :: "(string \<times> string) list"

text \<open>One entry \<^verbatim>\<open>{hash, parsed}\<close> of a manifest's version history.\<close>

record version =
  hash :: string
  parsed :: manifest

record event =
  request :: request
  clientId :: string

text \<open>What an operation did to the outside, in order.\<close>

datatype effect =
    NetFetch request
  | CachePut string string
  | CacheDelete string
  | Parse string

text \<open>
  The world. The three IndexedDB stores are association lists in the order in which
  \<^verbatim>\<open>keys(store)\<close> lists them; a value of \<open>CLIENT_ID_TO_HASH\<close> may be
  \<^verbatim>\<open>undefined\<close>. \<open>caches\<close> is the Cache Storage: named caches in creation order, each
  from URL to response. \<open>net\<close> is the network as the page sees it (\<open>None\<close>: the fetch
  rejects). \<open>clients\<close> maps a client id to the client's URL (\<^verbatim>\<open>self.clients.get\<close>),
  \<open>matchAll\<close> lists the ids of \<^verbatim>\<open>self.clients.matchAll()\<close>. \<open>now\<close> is
  \<^verbatim>\<open>Date.now()\<close>.
\<close>

record world =
  MANIFEST_URL_TO_CONTENTS :: "(string \<times> version list) list"
  PATH_TO_MANIFEST :: "(string \<times> string) list"
  CLIENT_ID_TO_HASH :: "(string \<times> string option) list"
  caches :: "(string \<times> (string \<times> response) list) list"
  net :: "request \<Rightarrow> response option"
  clients :: "(string \<times> string) list"
  matchAll :: "string list"
  now :: int
  cleanupInProgress :: bool
  trace :: "effect list"

text \<open>
  What the platform and the imported packages compute, taken as parameters:
  \<open>href rel base\<close> is \<^verbatim>\<open>new URL(rel, base).href\<close> and \<open>origin u\<close> is
  \<^verbatim>\<open>new URL(u).origin\<close> (\<open>None\<close>: the constructor throws), \<open>protocol u\<close> is
  \<^verbatim>\<open>new URL(u).protocol\<close> of a request's URL, \<open>digest\<close> is the hexadecimal SHA-256 of
  a string, \<open>Date_valueOf\<close> is \<^verbatim>\<open>new Date(s).valueOf()\<close> (\<open>None\<close>: \<^verbatim>\<open>NaN\<close>),
  \<open>parseAppCacheManifest\<close> is the package of that name (\<open>None\<close>: it throws),
  \<open>MAX_MANIFEST_AGE\<close> is the constant of \<^verbatim>\<open>lib/constants.mjs\<close>.
  \<open>Request_throws u\<close> says that \<^verbatim>\<open>new Request(u, ...)\<close> throws (the text is no URL, or
  the URL holds credentials), \<open>http_scheme u\<close> that the scheme of \<open>u\<close> is
  \<^verbatim>\<open>http\<close> or \<^verbatim>\<open>https\<close>, \<open>no_room u r\<close> that the storage of the origin has no
  room left for the response \<open>r\<close> under \<open>u\<close>; \<open>location_href\<close> is the URL of the page.
\<close>

record env =
  href :: "string \<Rightarrow> string \<Rightarrow> string option"
  origin :: "string \<Rightarrow> string option"
  protocol :: "string \<Rightarrow> string"
  location_origin :: string
  location_protocol :: string
  location_href :: string
  Request_throws :: "string \<Rightarrow> bool"
  http_scheme :: "string \<Rightarrow> bool"
  no_room :: "string \<Rightarrow> response \<Rightarrow> bool"
  digest :: "string \<Rightarrow> string"
  Date_valueOf :: "string \<Rightarrow> int option"
  parseAppCacheManifest :: "string \<Rightarrow> manifest option"
  MAX_MANIFEST_AGE :: int

type_synonym 'a result = "(error + 'a) \<times> world"

definition emit :: "effect \<Rightarrow> world \<Rightarrow> world" where
  "emit e w = w\<lparr>trace := trace w @ [e]\<rparr>"

section \<open>The stores and the Cache Storage\<close>

text \<open>
  \<^verbatim>\<open>get(key, store)\<close> of idb-keyval: the stored value, \<open>None\<close> (\<^verbatim>\<open>undefined\<close>) for
  a key that is not there.
\<close>

definition idb_get :: "'k \<Rightarrow> ('k \<times> 'v) list \<Rightarrow> 'v option" where
  "idb_get k s = map_of s k"

text \<open>
  \<^verbatim>\<open>set(key, value, store)\<close>: replaces the value of a key that is there; a new key
  takes its place in the key order, in which IndexedDB lists keys.
\<close>

definition idb_set :: "'k::linorder \<Rightarrow> 'v \<Rightarrow> ('k \<times> 'v) list \<Rightarrow> ('k \<times> 'v) list" where
  "idb_set k v s =
     (if k \<in> fst ` set s then AList.update k v s else insort_key fst (k, v) s)"

definition idb_del :: "'k \<Rightarrow> ('k \<times> 'v) list \<Rightarrow> ('k \<times> 'v) list" where
  "idb_del k s = AList.delete k s"

text \<open>
  \<^verbatim>\<open>caches.match(url, {cacheName})\<close> looks in the cache of that name only;
  \<^verbatim>\<open>caches.match(url)\<close> looks through all caches in creation order and returns the
  first entry found. Both return \<^verbatim>\<open>undefined\<close> (\<open>None\<close>) when there is no entry.
\<close>

fun match_all :: "string \<Rightarrow> (string \<times> (string \<times> response) list) list \<Rightarrow> response option" where
  "match_all u [] = None"
| "match_all u (c # cs) =
     (case map_of (snd c) u of Some r \<Rightarrow> Some r | None \<Rightarrow> match_all u cs)"

definition caches_match :: "string \<Rightarrow> string option \<Rightarrow> world \<Rightarrow> response option" where
  "caches_match u cacheName w =
     (case cacheName of
        Some n \<Rightarrow> (case map_of (caches w) n of None \<Rightarrow> None | Some c \<Rightarrow> map_of c u)
      | None \<Rightarrow> match_all u (caches w))"

text \<open>\<^verbatim>\<open>caches.open(name)\<close> creates the cache when it does not exist.\<close>

definition caches_open :: "string \<Rightarrow> world \<Rightarrow> world" where
  "caches_open n w =
     (if n \<in> fst ` set (caches w) then w else w\<lparr>caches := caches w @ [(n, [])]\<rparr>)"

text \<open>
  \<^verbatim>\<open>cache.put(url, response)\<close> on the cache opened under \<open>n\<close>. The platform
  rejects the call with a \<^verbatim>\<open>TypeError\<close> when no request can be made of the URL,
  when its scheme is not \<^verbatim>\<open>http\<close> or \<^verbatim>\<open>https\<close>, when the status of the response
  is 206 and when a field value of its \<^verbatim>\<open>Vary\<close> header is \<^verbatim>\<open>*\<close>, and with a
  \<^verbatim>\<open>QuotaExceededError\<close> when there is no room; otherwise the response replaces the
  entry of the URL. \<open>putRejects\<close> says that the call rejects.
\<close>

definition putTypeError :: "env \<Rightarrow> string \<Rightarrow> response \<Rightarrow> bool" where
  "putTypeError en u r =
     (Request_throws en u \<or> \<not> http_scheme en u \<or> status r = 206 \<or> ''*'' \<in> set (Vary r))"

definition putRejects :: "env \<Rightarrow> string \<Rightarrow> response \<Rightarrow> bool" where
  "putRejects en u r = (putTypeError en u r \<or> no_room en u r)"

definition cache_put :: "env \<Rightarrow> string \<Rightarrow> string \<Rightarrow> response \<Rightarrow> world \<Rightarrow> unit result" where
  "cache_put en n u r w =
     (if putTypeError en u r then (Inl TypeError, w)
      else if no_room en u r then (Inl QuotaExceededError, w)
      else (Inr (),
            emit (CachePut n u) (w\<lparr>caches := AList.map_entry n (AList.update u r) (caches w)\<rparr>)))"

text \<open>\<^verbatim>\<open>caches.delete(name)\<close>.\<close>

definition caches_delete :: "string \<Rightarrow> world \<Rightarrow> world" where
  "caches_delete n w = emit (CacheDelete n) (w\<lparr>caches := AList.delete n (caches w)\<rparr>)"

section \<open>The service worker: \<^verbatim>\<open>src/sw-runtime.mjs\<close>\<close>

text \<open>
  \<^verbatim>\<open>getClientUrlForEvent\<close> (lines 32 to 48): the URL of the client; when there is no
  such client, \<^verbatim>\<open>client.url\<close> throws and the handler returns the referrer, unless it
  is empty or \<^verbatim>\<open>about:client\<close>, and the request's URL otherwise.
\<close>

definition getClientUrlForEvent :: "event \<Rightarrow> world \<Rightarrow> string" where
  "getClientUrlForEvent ev w =
     (case map_of (clients w) (clientId ev) of
        Some client_url \<Rightarrow> client_url
      | None \<Rightarrow>
          if referrer (request ev) \<noteq> '''' \<and> referrer (request ev) \<noteq> ''about:client''
          then referrer (request ev)
          else url (request ev))"

text \<open>
  \<^verbatim>\<open>longestMatchingPrefix\<close> (lines 58 to 64): \<^verbatim>\<open>filter\<close> with \<^verbatim>\<open>startsWith\<close>, then
  \<^verbatim>\<open>reduce\<close> from the empty string, keeping the accumulator unless the current
  element is strictly longer.
\<close>

definition longestMatchingPrefix :: "string list \<Rightarrow> string \<Rightarrow> string" where
  "longestMatchingPrefix urlPrefixes fullUrl =
     foldl (\<lambda>longestSoFar current.
              if length longestSoFar \<ge> length current then longestSoFar else current)
       '''' (filter (\<lambda>urlPrefix. prefix urlPrefix fullUrl) urlPrefixes)"

text \<open>
  \<^verbatim>\<open>manifest.fallback[key]\<close>. The key always comes from \<^verbatim>\<open>Object.keys\<close> of the same
  object; for a key that is not there JavaScript gives \<^verbatim>\<open>undefined\<close>, which the
  Cache Storage reads as the text \<^verbatim>\<open>undefined\<close>.
\<close>

definition fallback_at :: "manifest \<Rightarrow> string \<Rightarrow> string" where
  "fallback_at m k = (case map_of (fallback m) k of Some u \<Rightarrow> u | None \<Rightarrow> ''undefined'')"

text \<open>
  The identifier \<^verbatim>\<open>fetch\<close>. Line 471 of \<^verbatim>\<open>sw-runtime.mjs\<close> declares
  \<^verbatim>\<open>async function fetch(event)\<close> at the top level of the module, and the module
  imports nothing of that name: by the scoping rules of JavaScript every call
  \<^verbatim>\<open>fetch(...)\<close> inside the module (lines 77, 182, 280, 297, 303) is a call of that
  function, not of the platform's network fetch. The functions below therefore take the
  function that \<^verbatim>\<open>fetch\<close> is bound to as their first argument \<open>fch\<close>: it is applied
  to a \<^verbatim>\<open>Request\<close> and gives a response, \<^verbatim>\<open>undefined\<close> or an exception. The
  module's own binding is \<open>fetch_Request\<close>, defined with \<open>fetch\<close> below.
\<close>

type_synonym fetch_binding = "request \<Rightarrow> world \<Rightarrow> response option result"

text \<open>
  \<^verbatim>\<open>fetchWithFallback\<close> (lines 75 to 90). The \<^verbatim>\<open>try\<close> block throws when the call
  throws, when the value has no \<^verbatim>\<open>ok\<close> (it is \<^verbatim>\<open>undefined\<close>), when the response is
  not ok, when \<^verbatim>\<open>new URL(response.url)\<close> throws and when the origins differ; the
  \<^verbatim>\<open>catch\<close> block returns the cache lookup of the fallback URL.
\<close>

definition fetchWithFallback_try :: "fetch_binding \<Rightarrow> env \<Rightarrow> request \<Rightarrow> world \<Rightarrow> response result" where
  "fetchWithFallback_try fch en req w =
     (case fch req w of
        (Inl e, w1) \<Rightarrow> (Inl e, w1)
      | (Inr None, w1) \<Rightarrow> (Inl TypeError, w1)
      | (Inr (Some resp), w1) \<Rightarrow>
          if \<not> ok resp then (Inl RequestFailure, w1)
          else (case origin en (resp_url resp) of
                  None \<Rightarrow> (Inl TypeError, w1)
                | Some org \<Rightarrow>
                    if org \<noteq> location_origin en then (Inl RequestFailure, w1)
                    else (Inr resp, w1)))"

definition fetchWithFallback ::
  "fetch_binding \<Rightarrow> env \<Rightarrow> request \<Rightarrow> string \<Rightarrow> string \<Rightarrow> world \<Rightarrow> response option result" where
  "fetchWithFallback fch en req fallbackUrl cacheName w =
     (case fetchWithFallback_try fch en req w of
        (Inr resp, w1) \<Rightarrow> (Inr (Some resp), w1)
      | (Inl e, w1) \<Rightarrow> (Inr (caches_match fallbackUrl (Some cacheName) w1), w1))"

text \<open>\<^verbatim>\<open>getLatestManifestVersion\<close> (lines 100 to 107).\<close>

definition getLatestManifestVersion :: "string \<Rightarrow> world \<Rightarrow> version option" where
  "getLatestManifestVersion manifestUrl w =
     (case idb_get manifestUrl (MANIFEST_URL_TO_CONTENTS w) of
        None \<Rightarrow> None
      | Some manifests \<Rightarrow> if manifests \<noteq> [] then Some (last manifests) else None)"

text \<open>\<^verbatim>\<open>getParsedManifestVersion\<close> (lines 118 to 128): the first version with that hash.\<close>

definition getParsedManifestVersion :: "string \<Rightarrow> string \<Rightarrow> world \<Rightarrow> manifest option" where
  "getParsedManifestVersion manifestUrl manifestHash w =
     (case idb_get manifestUrl (MANIFEST_URL_TO_CONTENTS w) of
        None \<Rightarrow> None
      | Some manifests \<Rightarrow>
          (case find (\<lambda>m. hash m = manifestHash) manifests of
             None \<Rightarrow> None
           | Some m \<Rightarrow> Some (parsed m)))"

text \<open>\<^verbatim>\<open>saveClientIdAndHash\<close> (lines 138 to 144); the hash may be \<^verbatim>\<open>undefined\<close>.\<close>

definition saveClientIdAndHash :: "string \<Rightarrow> string option \<Rightarrow> world \<Rightarrow> world" where
  "saveClientIdAndHash cid h w =
     (if cid \<noteq> '''' then w\<lparr>CLIENT_ID_TO_HASH := idb_set cid h (CLIENT_ID_TO_HASH w)\<rparr> else w)"

text \<open>
  \<^verbatim>\<open>appCacheLogic\<close> (lines 157 to 187). The manifest may be \<^verbatim>\<open>undefined\<close> (when
  \<^verbatim>\<open>getParsedManifestVersion\<close> found none); then \<^verbatim>\<open>manifest.cache\<close> throws.
\<close>

definition appCacheLogic ::
  "fetch_binding \<Rightarrow> env \<Rightarrow> event \<Rightarrow> manifest option \<Rightarrow> string \<Rightarrow> string \<Rightarrow> world
     \<Rightarrow> response option result" where
  "appCacheLogic fch en ev mf cacheName clientUrl w =
     (let requestUrl = url (request ev) in
      case mf of
        None \<Rightarrow> (Inl TypeError, w)
      | Some m \<Rightarrow>
          if requestUrl \<in> set (cache m) \<or> requestUrl = clientUrl
          then (Inr (caches_match requestUrl (Some cacheName) w), w)
          else
            let fallbackKey = longestMatchingPrefix (map fst (fallback m)) requestUrl in
            if fallbackKey \<noteq> ''''
            then fetchWithFallback fch en (request ev) (fallback_at m fallbackKey) cacheName w
            else if requestUrl \<in> set (network m) \<or> ''*'' \<in> set (network m)
            then fch (request ev) w
            else (Inr (Some Response_error), w))"

text \<open>
  \<^verbatim>\<open>manifestBehavior\<close> (lines 198 to 221). \<open>manifestBehavior_latest\<close> is its end, lines
  218 to 220: \<^verbatim>\<open>latestManifest.parsed\<close> throws when there is no latest version. The
  value saved at line 213 is the value read at line 202, which the test of line 206 has
  just found to be \<^verbatim>\<open>undefined\<close> or empty.
\<close>

definition manifestBehavior_latest ::
  "fetch_binding \<Rightarrow> env \<Rightarrow> event \<Rightarrow> string \<Rightarrow> string \<Rightarrow> world \<Rightarrow> response option result" where
  "manifestBehavior_latest fch en ev manifestUrl clientUrl w =
     (case getLatestManifestVersion manifestUrl w of
        None \<Rightarrow> (Inl TypeError, w)
      | Some latestManifest \<Rightarrow>
          appCacheLogic fch en ev (Some (parsed latestManifest)) (hash latestManifest)
            clientUrl w)"

definition manifestBehavior ::
  "fetch_binding \<Rightarrow> env \<Rightarrow> event \<Rightarrow> string \<Rightarrow> string \<Rightarrow> world \<Rightarrow> response option result" where
  "manifestBehavior fch en ev manifestUrl clientUrl w =
     (if clientId ev \<noteq> ''''
      then
        (let h = (case idb_get (clientId ev) (CLIENT_ID_TO_HASH w) of
                    None \<Rightarrow> None | Some v \<Rightarrow> v) in
         case h of
           None \<Rightarrow>
             manifestBehavior_latest fch en ev manifestUrl clientUrl
               (saveClientIdAndHash (clientId ev) h w)
         | Some pinned \<Rightarrow>
             if pinned \<noteq> ''''
             then appCacheLogic fch en ev (getParsedManifestVersion manifestUrl pinned w)
                    pinned clientUrl w
             else manifestBehavior_latest fch en ev manifestUrl clientUrl
                    (saveClientIdAndHash (clientId ev) h w))
      else manifestBehavior_latest fch en ev manifestUrl clientUrl w)"

text \<open>
  The values that \<^verbatim>\<open>noManifestBehavior\<close> puts into \<^verbatim>\<open>longestForEach\<close> and
  \<^verbatim>\<open>longest.prefix\<close>. Line 247 applies \<^verbatim>\<open>await\<close> to the array that
  \<^verbatim>\<open>manifestUrls.map(async ...)\<close> returns. An array is not a promise, so \<^verbatim>\<open>await\<close>
  gives the array back as it is, and its elements are the promise objects of the
  callbacks (\<open>Promise\<close>, with what the callback will settle to), not their strings. A
  promise object has no \<^verbatim>\<open>length\<close>: the property reads \<^verbatim>\<open>undefined\<close>, and
  \<^verbatim>\<open>>=\<close> with \<^verbatim>\<open>undefined\<close> on either side is false. An object is truthy; used as
  a property key it is converted to text.
\<close>

datatype js_value = Str string | Promise "error + string"

definition js_length :: "js_value \<Rightarrow> nat option" where
  "js_length v = (case v of Str s \<Rightarrow> Some (length s) | Promise p \<Rightarrow> None)"

definition js_ge :: "nat option \<Rightarrow> nat option \<Rightarrow> bool" where
  "js_ge a b = (case (a, b) of (Some x, Some y) \<Rightarrow> x \<ge> y | _ \<Rightarrow> False)"

definition js_truthy :: "js_value \<Rightarrow> bool" where
  "js_truthy v = (case v of Str s \<Rightarrow> s \<noteq> '''' | Promise p \<Rightarrow> True)"

definition js_key :: "js_value \<Rightarrow> string" where
  "js_key v = (case v of Str s \<Rightarrow> s | Promise p \<Rightarrow> ''[object Promise]'')"

text \<open>
  The callback of line 247 for one manifest URL: \<^verbatim>\<open>manifestVersions.length\<close> throws
  when the store has no such key, \<^verbatim>\<open>.parsed\<close> throws when the history is empty.
\<close>

definition longestForManifest :: "event \<Rightarrow> world \<Rightarrow> string \<Rightarrow> error + string" where
  "longestForManifest ev w manifestUrl =
     (case idb_get manifestUrl (MANIFEST_URL_TO_CONTENTS w) of
        None \<Rightarrow> Inl TypeError
      | Some manifestVersions \<Rightarrow>
          if manifestVersions = [] then Inl TypeError
          else Inr (longestMatchingPrefix
                      (map fst (fallback (parsed (last manifestVersions))))
                      (url (request ev))))"

text \<open>
  \<^verbatim>\<open>noManifestBehavior\<close> (lines 230 to 281). \<^verbatim>\<open>reduce\<close> with an index is a fold over
  the elements paired with their positions. In the branch of line 268,
  \<^verbatim>\<open>get(undefined, store)\<close> throws for an index out of range, and
  \<^verbatim>\<open>manifest.hash\<close> throws when there is no last version.
\<close>

definition noManifestBehavior ::
  "fetch_binding \<Rightarrow> env \<Rightarrow> event \<Rightarrow> world \<Rightarrow> response option result" where
  "noManifestBehavior fch en ev w =
     (let manifestUrls = map fst (MANIFEST_URL_TO_CONTENTS w);
          longestForEach = map (\<lambda>manifestUrl. Promise (longestForManifest ev w manifestUrl))
                             manifestUrls;
          longest = foldl (\<lambda>previous (pfx, index).
                             if js_ge (js_length pfx) (js_length (fst previous))
                             then (pfx, index) else previous)
                      (Str '''', 0) (zip longestForEach [0..<length longestForEach]);
          fallbackKey = fst longest
      in
        if js_truthy fallbackKey
        then
          (if snd longest < length manifestUrls
           then
             (case idb_get (manifestUrls ! snd longest) (MANIFEST_URL_TO_CONTENTS w) of
                None \<Rightarrow> (Inl TypeError, w)
              | Some manifests \<Rightarrow>
                  if manifests = [] then (Inl TypeError, w)
                  else fetchWithFallback fch en (request ev)
                         (fallback_at (parsed (last manifests)) (js_key fallbackKey))
                         (hash (last manifests)) w)
           else (Inl DataError, w))
        else fch (request ev) w)"

text \<open>
  What \<^verbatim>\<open>fetch\<close> and \<^verbatim>\<open>appCacheBehaviorForEvent\<close> are applied to: the
  \<^verbatim>\<open>FetchEvent\<close> that the caller passes, or (from the calls inside the module) a
  \<^verbatim>\<open>Request\<close>.
\<close>

datatype js_arg = FetchEvent event | RequestObject request

text \<open>
  \<^verbatim>\<open>appCacheBehaviorForEvent\<close> (lines 291 to 317). Line 292 reads
  \<^verbatim>\<open>event.request.url\<close>: a \<^verbatim>\<open>Request\<close> has no property \<^verbatim>\<open>request\<close>, so for a
  \<^verbatim>\<open>Request\<close> the line throws.
\<close>

definition appCacheBehaviorForEvent ::
  "fetch_binding \<Rightarrow> env \<Rightarrow> js_arg \<Rightarrow> world \<Rightarrow> response option result" where
  "appCacheBehaviorForEvent fch en arg w =
     (case arg of
        RequestObject r \<Rightarrow> (Inl TypeError, w)
      | FetchEvent ev \<Rightarrow>
          if X_Use_Fetch (request ev) = Some ''true'' then fch (request ev) w
          else if req_method (request ev) \<noteq> ''GET''
                  \<or> protocol en (url (request ev)) \<noteq> location_protocol en
          then fch (request ev) w
          else
            (let clientUrl = getClientUrlForEvent ev w in
             case idb_get clientUrl (PATH_TO_MANIFEST w) of
               None \<Rightarrow> noManifestBehavior fch en ev w
             | Some manifestUrl \<Rightarrow>
                 if manifestUrl \<noteq> '''' then manifestBehavior fch en ev manifestUrl clientUrl w
                 else noManifestBehavior fch en ev w))"

text \<open>
  \<^verbatim>\<open>cleanupClientIdAndHash\<close> (lines 330 to 343): for each stored id that is not
  active, in the order of \<^verbatim>\<open>keys\<close>, read the value and delete the entry.
\<close>

fun cleanupInactive :: "string list \<Rightarrow> world \<Rightarrow> string option list \<times> world" where
  "cleanupInactive [] w = ([], w)"
| "cleanupInactive (i # ids) w =
     (let h = (case idb_get i (CLIENT_ID_TO_HASH w) of None \<Rightarrow> None | Some v \<Rightarrow> v);
          w1 = w\<lparr>CLIENT_ID_TO_HASH := idb_del i (CLIENT_ID_TO_HASH w)\<rparr>;
          (hs, w2) = cleanupInactive ids w1
      in (h # hs, w2))"

definition cleanupClientIdAndHash :: "string list \<Rightarrow> world \<Rightarrow> string option list \<times> world" where
  "cleanupClientIdAndHash idsOfActiveClients w =
     (let allKnownIds = map fst (CLIENT_ID_TO_HASH w);
          idsOfInactiveClients = filter (\<lambda>i. i \<notin> set idsOfActiveClients) allKnownIds
      in cleanupInactive idsOfInactiveClients w)"

text \<open>
  \<^verbatim>\<open>getHashesOfOlderVersions\<close> (lines 352 to 367): \<^verbatim>\<open>slice(0, -1)\<close> is the list
  without its last element; \<^verbatim>\<open>manifests.slice\<close> throws for a key with no value.
\<close>

fun olderVersions :: "string list \<Rightarrow> world \<Rightarrow> error + string list" where
  "olderVersions [] w = Inr []"
| "olderVersions (manifestUrl # manifestUrls) w =
     (case idb_get manifestUrl (MANIFEST_URL_TO_CONTENTS w) of
        None \<Rightarrow> Inl TypeError
      | Some manifests \<Rightarrow>
          (case olderVersions manifestUrls w of
             Inl e \<Rightarrow> Inl e
           | Inr hs \<Rightarrow> Inr (map hash (butlast manifests) @ hs)))"

definition getHashesOfOlderVersions :: "world \<Rightarrow> error + string list" where
  "getHashesOfOlderVersions w = olderVersions (map fst (MANIFEST_URL_TO_CONTENTS w)) w"

text \<open>
  \<^verbatim>\<open>cleanupOldCaches\<close> (lines 381 to 402). \<^verbatim>\<open>includes\<close> compares a hash of an older
  version, a string, with the values read from \<open>CLIENT_ID_TO_HASH\<close>.
\<close>

definition cleanupOldCaches :: "world \<Rightarrow> unit result" where
  "cleanupOldCaches w =
     (if cleanupInProgress w then (Inr (), w)
      else
        let w1 = w\<lparr>cleanupInProgress := True\<rparr>;
            idsOfActiveClients = matchAll w1;
            (hashesNotInUse, w2) = cleanupClientIdAndHash idsOfActiveClients w1
        in case getHashesOfOlderVersions w2 of
             Inl e \<Rightarrow> (Inl e, w2)
           | Inr hashesOfOlderVersions \<Rightarrow>
               let idsToDelete = filter (\<lambda>hashOfOlderVersion.
                                           Some hashOfOlderVersion \<in> set hashesNotInUse)
                                   hashesOfOlderVersions;
                   w3 = foldl (\<lambda>w' i. caches_delete i w') w2 idsToDelete
               in (Inr (), w3\<lparr>cleanupInProgress := False\<rparr>))"

text \<open>
  \<^verbatim>\<open>fetch\<close> (lines 471 to 483), the function the module exports. The cleanup of line
  479 is started and not awaited: it runs after the response is there and its outcome
  is dropped. \<open>fetch_body\<close> still has the binding of the identifier \<^verbatim>\<open>fetch\<close> as a
  parameter.
\<close>

definition fetch_body ::
  "fetch_binding \<Rightarrow> env \<Rightarrow> js_arg \<Rightarrow> world \<Rightarrow> response option result" where
  "fetch_body fch en arg w =
     (case appCacheBehaviorForEvent fch en arg w of
        (Inl e, w1) \<Rightarrow> (Inl e, w1)
      | (Inr resp, w1) \<Rightarrow>
          (case arg of
             RequestObject r \<Rightarrow> (Inl TypeError, w1)
           | FetchEvent ev \<Rightarrow>
               (Inr resp,
                if mode (request ev) = ''navigate'' then snd (cleanupOldCaches w1) else w1)))"

text \<open>
  Inside the module \<^verbatim>\<open>fetch\<close> is only ever applied to a \<^verbatim>\<open>Request\<close>, where the
  body throws at line 292 before it calls anything (\<open>fetch_body_RequestObject\<close> below:
  whatever the inner binding). So the binding of \<^verbatim>\<open>fetch\<close> inside the module is
  \<open>fetch_Request\<close>, and the exported function is \<open>fetch\<close>.
\<close>

definition fetch_Request :: "env \<Rightarrow> fetch_binding" where
  "fetch_Request en req w = fetch_body (\<lambda>r w'. (Inl TypeError, w')) en (RequestObject req) w"

definition fetch :: "env \<Rightarrow> js_arg \<Rightarrow> world \<Rightarrow> response option result" where
  "fetch en arg w = fetch_body (fetch_Request en) en arg w"

section \<open>The page: \<^verbatim>\<open>src/window-runtime.mjs\<close>\<close>

text \<open>
  In this module \<^verbatim>\<open>fetch\<close> is the platform's: it asks the network and fulfils with
  the response, or rejects.
\<close>

definition window_fetch :: "request \<Rightarrow> world \<Rightarrow> response result" where
  "window_fetch req w =
     (case net w req of
        None \<Rightarrow> (Inl NetworkError, emit (NetFetch req) w)
      | Some r \<Rightarrow> (Inr r, emit (NetFetch req) w))"

text \<open>The request of lines 54 to 60; the other fields have the defaults of \<^verbatim>\<open>Request\<close>.\<close>

definition cacheRequest :: "string \<Rightarrow> request" where
  "cacheRequest u = \<lparr>url = u, req_method = ''GET'', X_Use_Fetch = Some ''true'', mode = ''cors'',
     referrer = ''about:client'', credentials = ''include'', redirect = ''manual'',
     cache_mode = ''default''\<rparr>"

text \<open>Line 66: the header is there, not empty, and contains \<^verbatim>\<open>no-store\<close>.\<close>

definition noStore :: "response \<Rightarrow> bool" where
  "noStore r =
     (case Cache_Control r of None \<Rightarrow> False | Some cc \<Rightarrow> cc \<noteq> '''' \<and> sublist ''no-store'' cc)"

text \<open>
  The callback of \<^verbatim>\<open>addToCache\<close> for one URL (lines 52 to 88). \<open>addToCache_try\<close> is
  the \<^verbatim>\<open>try\<close> block: it throws when the fetch rejects, when \<^verbatim>\<open>cache.put\<close> rejects
  the successful response, and at line 75. \<open>addToCache_url\<close> is the whole callback:
  the request is made at line 54, before the \<^verbatim>\<open>try\<close>, so an exception there leaves
  the callback; the \<^verbatim>\<open>catch\<close> block looks the URL up in all caches and puts what it
  finds, and an exception of that \<^verbatim>\<open>cache.put\<close> leaves the callback as well.
\<close>

definition addToCache_try :: "env \<Rightarrow> string \<Rightarrow> string \<Rightarrow> world \<Rightarrow> unit result" where
  "addToCache_try en cacheName u w =
     (case window_fetch (cacheRequest u) w of
        (Inl e, w1) \<Rightarrow> (Inl e, w1)
      | (Inr resp, w1) \<Rightarrow>
          if noStore resp then (Inr (), w1)
          else if ok resp then cache_put en cacheName u resp w1
          else if status resp \<noteq> 404 \<and> status resp \<noteq> 410 then (Inl RequestFailure, w1)
          else (Inr (), w1))"

definition addToCache_url :: "env \<Rightarrow> string \<Rightarrow> string \<Rightarrow> world \<Rightarrow> unit result" where
  "addToCache_url en cacheName u w =
     (if Request_throws en u then (Inl TypeError, w)
      else
        case addToCache_try en cacheName u w of
          (Inr x, w1) \<Rightarrow> (Inr x, w1)
        | (Inl e, w1) \<Rightarrow>
            (case caches_match u None w1 of
               Some resp \<Rightarrow> cache_put en cacheName u resp w1
             | None \<Rightarrow> (Inr (), w1)))"

text \<open>
  \<^verbatim>\<open>Promise.all\<close> over the callbacks, taken one URL after the other: every callback
  runs, and the whole rejects when one of them does.
\<close>

fun addToCache_all :: "env \<Rightarrow> string \<Rightarrow> string list \<Rightarrow> world \<Rightarrow> unit result" where
  "addToCache_all en cacheName [] w = (Inr (), w)"
| "addToCache_all en cacheName (u # us) w =
     (case addToCache_url en cacheName u w of
        (r, w1) \<Rightarrow>
          (case addToCache_all en cacheName us w1 of
             (rs, w2) \<Rightarrow> ((case r of Inl e \<Rightarrow> Inl e | Inr x \<Rightarrow> rs), w2)))"

text \<open>\<^verbatim>\<open>addToCache\<close> (lines 48 to 91): open the cache, then the callbacks.\<close>

definition addToCache :: "env \<Rightarrow> string \<Rightarrow> string list \<Rightarrow> world \<Rightarrow> unit result" where
  "addToCache en cacheName urls w =
     addToCache_all en cacheName urls (caches_open cacheName w)"

text \<open>
  \<^verbatim>\<open>getManifestText\<close> (lines 101 to 135). The request of line 103 is made first. A
  comparison with \<^verbatim>\<open>NaN\<close> is false, so a date that does not parse leaves the first
  response in use.
\<close>

definition manifestRequest :: "string \<Rightarrow> string \<Rightarrow> request" where
  "manifestRequest manifestUrl cm = \<lparr>url = manifestUrl, req_method = ''GET'',
     X_Use_Fetch = Some ''true'', mode = ''cors'', referrer = ''about:client'',
     credentials = ''include'', redirect = ''follow'', cache_mode = cm\<rparr>"

definition tooOld :: "env \<Rightarrow> world \<Rightarrow> response \<Rightarrow> bool" where
  "tooOld en w r =
     (case Date r of
        None \<Rightarrow> False
      | Some dateHeaderValue \<Rightarrow>
          dateHeaderValue \<noteq> '''' \<and>
          (case Date_valueOf en dateHeaderValue of
             None \<Rightarrow> False
           | Some manifestDate \<Rightarrow> now w - manifestDate > MAX_MANIFEST_AGE en))"

definition getManifestText :: "env \<Rightarrow> string \<Rightarrow> world \<Rightarrow> string result" where
  "getManifestText en manifestUrl w =
     (if Request_throws en manifestUrl then (Inl TypeError, w)
      else
        case window_fetch (manifestRequest manifestUrl ''default'') w of
          (Inl e, w1) \<Rightarrow> (Inl e, w1)
        | (Inr manifestResponse, w1) \<Rightarrow>
            if tooOld en w1 manifestResponse
            then (case window_fetch (manifestRequest manifestUrl ''reload'') w1 of
                    (Inl e, w2) \<Rightarrow> (Inl e, w2)
                  | (Inr noCacheResponse, w2) \<Rightarrow> (Inr (body noCacheResponse), w2))
            else (Inr (body manifestResponse), w1))"

text \<open>\<^verbatim>\<open>generateHash\<close> (lines 144 to 156).\<close>

definition generateHash :: "env \<Rightarrow> string \<Rightarrow> string \<Rightarrow> string" where
  "generateHash en manifestUrl manifestText = digest en (manifestUrl @ manifestText)"

text \<open>
  \<^verbatim>\<open>makeManifestUrlsAbsolute\<close> (lines 275 to 296); \<^verbatim>\<open>new URL\<close> throws on text that
  is no URL. Assigning to a key that the object has already replaces its value.
\<close>

fun absoluteFallback ::
  "env \<Rightarrow> string \<Rightarrow> (string \<times> string) list \<Rightarrow> (string \<times> string) list
     \<Rightarrow> (string \<times> string) list option" where
  "absoluteFallback en baseUrl [] acc = Some acc"
| "absoluteFallback en baseUrl (kv # kvs) acc =
     (case href en (fst kv) baseUrl of
        None \<Rightarrow> None
      | Some k \<Rightarrow>
          (case href en (snd kv) baseUrl of
             None \<Rightarrow> None
           | Some v \<Rightarrow> absoluteFallback en baseUrl kvs (AList.update k v acc)))"

definition makeManifestUrlsAbsolute :: "env \<Rightarrow> string \<Rightarrow> manifest \<Rightarrow> error + manifest" where
  "makeManifestUrlsAbsolute en baseUrl originalManifest =
     (case those (map (\<lambda>relativeUrl. href en relativeUrl baseUrl) (cache originalManifest)) of
        None \<Rightarrow> Inl TypeError
      | Some c \<Rightarrow>
          (case those (map (\<lambda>relativeUrl. if relativeUrl = ''*'' then Some relativeUrl
                                            else href en relativeUrl baseUrl)
                         (network originalManifest)) of
             None \<Rightarrow> Inl TypeError
           | Some n \<Rightarrow>
               (case absoluteFallback en baseUrl (fallback originalManifest) [] of
                  None \<Rightarrow> Inl TypeError
                | Some f \<Rightarrow> Inr \<lparr>cache = c, network = n, fallback = f\<rparr>)))"

text \<open>
  Lines 209 and 210: the parser, then \<^verbatim>\<open>makeManifestUrlsAbsolute\<close>; either may
  throw.
\<close>

definition parsedManifestOf :: "env \<Rightarrow> string \<Rightarrow> string \<Rightarrow> error + manifest" where
  "parsedManifestOf en manifestUrl manifestText =
     (case parseAppCacheManifest en manifestText of
        None \<Rightarrow> Inl ParseError
      | Some originalManifest \<Rightarrow> makeManifestUrlsAbsolute en manifestUrl originalManifest)"

text \<open>
  Lines 217 to 233: the URLs of the cache section, the fallback targets, and the pages
  that \<open>PATH_TO_MANIFEST\<close> binds to this manifest.
\<close>

definition urlsToCache :: "string \<Rightarrow> manifest \<Rightarrow> world \<Rightarrow> string list" where
  "urlsToCache manifestUrl parsedManifest w =
     (let fallbackUrls = map (\<lambda>key. fallback_at parsedManifest key)
                           (map fst (fallback parsedManifest))
      in cache parsedManifest @ fallbackUrls @
           filter (\<lambda>u. idb_get u (PATH_TO_MANIFEST w) = Some manifestUrl)
             (map fst (PATH_TO_MANIFEST w)))"

text \<open>
  \<^verbatim>\<open>performManifestUpdate\<close> (lines 206 to 245). The two operations of
  \<^verbatim>\<open>Promise.all\<close> touch different stores; they are taken in the order written, and
  the history is stored also when \<^verbatim>\<open>addToCache\<close> rejects.
\<close>

definition performManifestUpdate ::
  "env \<Rightarrow> string \<Rightarrow> string \<Rightarrow> string \<Rightarrow> version list \<Rightarrow> world \<Rightarrow> string result" where
  "performManifestUpdate en manifestUrl manifestHash manifestText previousManifests w =
     (let w0 = emit (Parse manifestText) w in
      case parsedManifestOf en manifestUrl manifestText of
        Inl e \<Rightarrow> (Inl e, w0)
      | Inr parsedManifest \<Rightarrow>
          (let pushed = previousManifests @ [\<lparr>hash = manifestHash, parsed = parsedManifest\<rparr>]
           in case addToCache en manifestHash (urlsToCache manifestUrl parsedManifest w0) w0 of
                (r, w1) \<Rightarrow>
                  (let w2 = w1\<lparr>MANIFEST_URL_TO_CONTENTS :=
                               idb_set manifestUrl pushed (MANIFEST_URL_TO_CONTENTS w1)\<rparr>
                   in case r of Inl e \<Rightarrow> (Inl e, w2) | Inr x \<Rightarrow> (Inr manifestHash, w2))))"

text \<open>\<^verbatim>\<open>checkManifestVersion\<close> (lines 168 to 189).\<close>

definition checkManifestVersion :: "env \<Rightarrow> string \<Rightarrow> world \<Rightarrow> string result" where
  "checkManifestVersion en manifestUrl w =
     (case getManifestText en manifestUrl w of
        (Inl e, w1) \<Rightarrow> (Inl e, w1)
      | (Inr currentManifestText, w1) \<Rightarrow>
          (let currentManifestHash = generateHash en manifestUrl currentManifestText;
               previousManifests =
                 (case idb_get manifestUrl (MANIFEST_URL_TO_CONTENTS w1) of
                    None \<Rightarrow> [] | Some ms \<Rightarrow> ms);
               isManifestKnown =
                 list_ex (\<lambda>previousManifest. hash previousManifest = currentManifestHash)
                   previousManifests
           in if \<not> isManifestKnown
              then (case performManifestUpdate en manifestUrl currentManifestHash
                           currentManifestText previousManifests w1 of
                      (Inl e, w2) \<Rightarrow> (Inl e, w2)
                    | (Inr x, w2) \<Rightarrow> (Inr currentManifestHash, w2))
              else (Inr currentManifestHash, w1)))"



section \<open>The worlds that the two modules produce\<close>

text \<open>
  The Cache Storage holds what \<^verbatim>\<open>cache.put\<close> has accepted. A world is \<open>storable\<close>
  when \<^verbatim>\<open>cache.put\<close> accepts every stored response under its URL once more: it
  raises no \<^verbatim>\<open>TypeError\<close>, which holds of everything that was put, and there is
  room for a copy.
\<close>

definition storable :: "env \<Rightarrow> world \<Rightarrow> bool" where
  "storable en w =
     (\<forall>c \<in> set (caches w). \<forall>e \<in> set (snd c). \<not> putRejects en (fst e) (snd e))"

text \<open>
  For the proofs about \<^verbatim>\<open>addToCache\<close>: the entry that the cache \<open>n\<close> holds for the
  URL \<open>u\<close> once the callback of \<open>u\<close> has run in \<open>w\<close> to its end, read off the
  branches of lines 62 to 87.
\<close>

definition entryAfter :: "env \<Rightarrow> string \<Rightarrow> string \<Rightarrow> world \<Rightarrow> response option" where
  "entryAfter en n u w =
     (case net w (cacheRequest u) of
        None \<Rightarrow> caches_match u None w
      | Some r \<Rightarrow>
          if noStore r then caches_match u (Some n) w
          else if ok r then (if putRejects en u r then caches_match u None w else Some r)
          else if status r \<noteq> 404 \<and> status r \<noteq> 410 then caches_match u None w
          else caches_match u (Some n) w)"


section \<open>Example inputs\<close>

text \<open>
  A small installation, used to run the definitions: one manifest \<^verbatim>\<open>/m\<close> bound to
  the page \<^verbatim>\<open>/page\<close>, with versions \<open>v1\<close> (hash \<^verbatim>\<open>H1\<close>) and \<open>v2\<close> (hash
  \<^verbatim>\<open>H2\<close>), the caches of both versions, and a network that answers every request
  with a successful same-origin response.
\<close>

definition en0 :: env where
  "en0 = \<lparr>href = (\<lambda>rel base. Some rel), origin = (\<lambda>u. Some ''o''),
     protocol = (\<lambda>u. ''https:''), location_origin = ''o'', location_protocol = ''https:'',
     location_href = ''/page'', Request_throws = (\<lambda>u. u = ''//u:p@h/''),
     http_scheme = (\<lambda>u. True), no_room = (\<lambda>u r. False), digest = (\<lambda>s. s),
     Date_valueOf = (\<lambda>s. None),
     parseAppCacheManifest =
       (\<lambda>t. Some \<lparr>cache = [''/a.js''], network = [], fallback = []\<rparr>),
     MAX_MANIFEST_AGE = 86400000\<rparr>"

definition resp :: "string \<Rightarrow> response" where
  "resp b = \<lparr>rtype = ''basic'', status = 200, resp_url = ''/r'', Cache_Control = None,
     Date = None, Vary = [], body = b\<rparr>"

definition getRequest :: "string \<Rightarrow> request" where
  "getRequest u = \<lparr>url = u, req_method = ''GET'', X_Use_Fetch = None, mode = ''no-cors'',
     referrer = '''', credentials = ''same-origin'', redirect = ''follow'',
     cache_mode = ''default''\<rparr>"

definition ev0 :: "string \<Rightarrow> string \<Rightarrow> event" where
  "ev0 cid u = \<lparr>request = getRequest u, clientId = cid\<rparr>"

definition m1 :: manifest where
  "m1 = \<lparr>cache = [''/a.js'', ''/a/b/k''], network = [''/a.js'', ''/n''],
     fallback = [(''/a/'', ''/off1''), (''/a/b/'', ''/off2'')]\<rparr>"

definition m2 :: manifest where
  "m2 = \<lparr>cache = [''/a.js''], network = [], fallback = []\<rparr>"

definition v1 :: version where
  "v1 = \<lparr>hash = ''H1'', parsed = m1\<rparr>"

definition v2 :: version where
  "v2 = \<lparr>hash = ''H2'', parsed = m2\<rparr>"

definition cache1 :: "(string \<times> response) list" where
  "cache1 = [(''/a.js'', resp ''a1''), (''/off1'', resp ''off1''), (''/off2'', resp ''off2'')]"

definition cache2 :: "(string \<times> response) list" where
  "cache2 = [(''/a.js'', resp ''a2'')]"

definition world0 ::
  "version list \<Rightarrow> (string \<times> string option) list \<Rightarrow> string list \<Rightarrow> world" where
  "world0 history pins active = \<lparr>MANIFEST_URL_TO_CONTENTS = [(''/m'', history)],
     PATH_TO_MANIFEST = [(''/page'', ''/m'')], CLIENT_ID_TO_HASH = pins,
     caches = [(''H1'', cache1), (''H2'', cache2)], net = (\<lambda>r. Some (resp ''net'')),
     clients = [(''c1'', ''/page'')], matchAll = active, now = 0,
     cleanupInProgress = False, trace = []\<rparr>"

text \<open>
  A network for filling a cache: \<^verbatim>\<open>/ok\<close> is answered with success, \<^verbatim>\<open>/ns\<close> with
  \<^verbatim>\<open>Cache-Control: no-store\<close>, \<^verbatim>\<open>/gone\<close> with status 404, \<^verbatim>\<open>/a.js\<close> with status
  500, \<^verbatim>\<open>/off2\<close> with status 206, \<^verbatim>\<open>/vary\<close> with success and the header
  \<^verbatim>\<open>Vary: *\<close>, and every other request fails.
\<close>

definition net1 :: "request \<Rightarrow> response option" where
  "net1 r =
     (if url r = ''/ok'' then Some (resp ''new'')
      else if url r = ''/ns'' then Some ((resp ''ns'')\<lparr>Cache_Control := Some ''no-store''\<rparr>)
      else if url r = ''/gone'' then Some ((resp ''gone'')\<lparr>status := 404\<rparr>)
      else if url r = ''/a.js'' then Some ((resp ''oops'')\<lparr>status := 500\<rparr>)
      else if url r = ''/off2'' then Some ((resp ''part'')\<lparr>status := 206\<rparr>)
      else if url r = ''/vary'' then Some ((resp ''vary'')\<lparr>Vary := [''*'']\<rparr>)
      else None)"

definition world1 :: world where
  "world1 = (world0 [v1] [] [''c1''])\<lparr>net := net1\<rparr>"

text \<open>
  A third version of the manifest and the platform whose parser reads it, and a platform
  whose parser reads a manifest that lists a URL with credentials, of which
  \<^verbatim>\<open>new Request\<close> makes no request.
\<close>

definition m3 :: manifest where
  "m3 = \<lparr>cache = [''/ok'', ''/ns'', ''/gone'', ''/a.js''], network = [],
     fallback = [(''/a/'', ''/off1''), (''/b/'', ''/off2''), (''/x/'', ''/zz'')]\<rparr>"

definition en3 :: env where
  "en3 = en0\<lparr>parseAppCacheManifest := (\<lambda>t. Some m3)\<rparr>"

definition en4 :: env where
  "en4 = en0\<lparr>parseAppCacheManifest :=
            (\<lambda>t. Some \<lparr>cache = [''/ok'', ''//u:p@h/''], network = [], fallback = []\<rparr>)\<rparr>"

section \<open>Properties of the service worker's decision\<close>

subsection \<open>The binding of \<^verbatim>\<open>fetch\<close> inside the module\<close>

text \<open>
  Applied to a \<^verbatim>\<open>Request\<close>, the body of the module's \<^verbatim>\<open>fetch\<close> throws whatever
  \<^verbatim>\<open>fetch\<close> is bound to inside it, so \<open>fetch_Request\<close> is the function that the
  exported \<open>fetch\<close> is on a \<^verbatim>\<open>Request\<close>: the definition of the two in stages is
  the recursive function of the source.
\<close>

lemma fetch_body_RequestObject: "fetch_body fch en (RequestObject r) w = (Inl TypeError, w)"
  by (simp add: fetch_body_def appCacheBehaviorForEvent_def)

lemma fetch_Request_throws: "fetch_Request en r w = (Inl TypeError, w)"
  by (simp add: fetch_Request_def fetch_body_RequestObject)

lemma fetch_RequestObject: "fetch en (RequestObject r) w = fetch_Request en r w"
  by (simp add: fetch_def fetch_body_RequestObject fetch_Request_throws)

subsection \<open>Running the examples\<close>

lemmas example_defs = ev0_def getRequest_def m1_def m2_def v1_def v2_def world0_def
  cache1_def cache2_def resp_def en0_def

lemmas resolver_defs = fetch_def fetch_body_def appCacheBehaviorForEvent_def
  getClientUrlForEvent_def manifestBehavior_def manifestBehavior_latest_def
  saveClientIdAndHash_def idb_set_def idb_get_def getLatestManifestVersion_def
  getParsedManifestVersion_def appCacheLogic_def longestMatchingPrefix_def fallback_at_def
  caches_match_def Let_def

lemmas sweep_defs = cleanupOldCaches_def cleanupClientIdAndHash_def
  getHashesOfOlderVersions_def idb_get_def idb_del_def caches_delete_def emit_def
  AList.delete_eq

subsection \<open>The cache section\<close>

text \<open>
  C1. A request whose URL is in the cache section of the manifest, or is the client
  URL, gets the result of the lookup of that URL in the cache named by the version hash.
  The world is returned as it was and the binding of \<^verbatim>\<open>fetch\<close> is not applied,
  whatever it is: nothing is fetched. The network section and the fallback section are
  not looked at, so it makes no difference whether the URL is also listed there.
\<close>

theorem cache_section_wins:
  "url (request ev) \<in> set (cache m) \<or> url (request ev) = clientUrl \<Longrightarrow>
   appCacheLogic fch en ev (Some m) h clientUrl w
     = (Inr (caches_match (url (request ev)) (Some h) w), w)"
  by (simp add: appCacheLogic_def)

text \<open>
  In the example, \<^verbatim>\<open>/a.js\<close> is in the cache section and in the network section of
  \<open>m1\<close>; the answer is the copy cached under \<^verbatim>\<open>H1\<close>.
\<close>

theorem cache_section_wins_witness:
  "url (request (ev0 ''c1'' ''/a.js'')) \<in> set (cache m1)
   \<and> url (request (ev0 ''c1'' ''/a.js'')) \<in> set (network m1)
   \<and> appCacheLogic (fetch_Request en0) en0 (ev0 ''c1'' ''/a.js'') (Some m1) ''H1'' ''/page''
         (world0 [v1] [] [''c1''])
       = (Inr (Some (resp ''a1'')), world0 [v1] [] [''c1''])"
  using cache_section_wins [of "ev0 ''c1'' ''/a.js''" m1 "''/page''" "fetch_Request en0" en0
      "''H1''" "world0 [v1] [] [''c1'']"]
  by (simp add: ev0_def getRequest_def m1_def world0_def caches_match_def cache1_def)

text \<open>
  C10. When the URL is in the cache section (or is the client URL) and the cache of the
  version hash has no entry for it, the answer is the empty result of the lookup
  (\<^verbatim>\<open>undefined\<close>): no fallback matching, no look at the network section, no fetch,
  and the world is unchanged.
\<close>

theorem cache_miss_is_empty:
  "url (request ev) \<in> set (cache m) \<or> url (request ev) = clientUrl \<Longrightarrow>
   caches_match (url (request ev)) (Some h) w = None \<Longrightarrow>
   appCacheLogic fch en ev (Some m) h clientUrl w = (Inr None, w)"
  by (simp add: appCacheLogic_def)

text \<open>
  In the example, \<^verbatim>\<open>/a/b/k\<close> is in the cache section of \<open>m1\<close>, is not stored under
  \<^verbatim>\<open>H1\<close>, and has the fallback prefix \<^verbatim>\<open>/a/b/\<close>, whose target is stored.
\<close>

theorem cache_miss_is_empty_witness:
  "url (request (ev0 ''c1'' ''/a/b/k'')) \<in> set (cache m1)
   \<and> caches_match (url (request (ev0 ''c1'' ''/a/b/k''))) (Some ''H1'')
         (world0 [v1] [] [''c1'']) = None
   \<and> longestMatchingPrefix (map fst (fallback m1)) ''/a/b/k'' = ''/a/b/''
   \<and> appCacheLogic (fetch_Request en0) en0 (ev0 ''c1'' ''/a/b/k'') (Some m1) ''H1'' ''/page''
         (world0 [v1] [] [''c1''])
       = (Inr None, world0 [v1] [] [''c1''])"
  using cache_miss_is_empty [of "ev0 ''c1'' ''/a/b/k''" m1 "''/page''" "''H1''"
      "world0 [v1] [] [''c1'']" "fetch_Request en0" en0]
  by (simp add: ev0_def getRequest_def m1_def world0_def caches_match_def cache1_def
      longestMatchingPrefix_def)

subsection \<open>The fallback section\<close>

text \<open>
  \<^verbatim>\<open>longestMatchingPrefix\<close> returns a longest of the given prefixes that the URL starts
  with, and the empty string when none but, at most, the empty one matches.
\<close>

lemma foldl_longest:
  "foldl (\<lambda>longestSoFar current.
            if length longestSoFar \<ge> length current then longestSoFar else current) a xs
     \<in> insert a (set xs)
   \<and> length a \<le> length (foldl (\<lambda>longestSoFar current.
            if length longestSoFar \<ge> length current then longestSoFar else current) a xs)
   \<and> (\<forall>x \<in> set xs. length x \<le> length (foldl (\<lambda>longestSoFar current.
            if length longestSoFar \<ge> length current then longestSoFar else current) a xs))"
proof (induction xs arbitrary: a)
  case Nil
  show ?case by simp
next
  case (Cons x xs)
  show ?case using Cons.IH [of a] Cons.IH [of x] by (auto simp: le_trans)
qed

lemma longestMatchingPrefix_is_key:
  "longestMatchingPrefix ps u \<noteq> '''' \<Longrightarrow>
   longestMatchingPrefix ps u \<in> set ps \<and> prefix (longestMatchingPrefix ps u) u"
  using foldl_longest [of "''''" "filter (\<lambda>urlPrefix. prefix urlPrefix u) ps"]
  by (auto simp: longestMatchingPrefix_def)

lemma longestMatchingPrefix_longest:
  "p \<in> set ps \<Longrightarrow> prefix p u \<Longrightarrow> length p \<le> length (longestMatchingPrefix ps u)"
  using foldl_longest [of "''''" "filter (\<lambda>urlPrefix. prefix urlPrefix u) ps"]
  by (auto simp: longestMatchingPrefix_def)

lemma longestMatchingPrefix_found:
  "p \<in> set ps \<Longrightarrow> prefix p u \<Longrightarrow> p \<noteq> '''' \<Longrightarrow> longestMatchingPrefix ps u \<noteq> ''''"
  using longestMatchingPrefix_longest [of p ps u] by auto

text \<open>
  \<^verbatim>\<open>fetchWithFallback\<close> for any binding of \<^verbatim>\<open>fetch\<close>: the response of the call
  when it is successful and of the worker's origin, the lookup of the fallback URL in
  every other case.
\<close>

lemma fetchWithFallback_any_binding:
  "fetchWithFallback fch en req fb h w =
     (case fch req w of
        (Inr (Some r), w1) \<Rightarrow>
          if ok r \<and> origin en (resp_url r) = Some (location_origin en) then (Inr (Some r), w1)
          else (Inr (caches_match fb (Some h) w1), w1)
      | (Inr None, w1) \<Rightarrow> (Inr (caches_match fb (Some h) w1), w1)
      | (Inl e, w1) \<Rightarrow> (Inr (caches_match fb (Some h) w1), w1))"
  by (auto simp: fetchWithFallback_def fetchWithFallback_try_def
      split: prod.splits sum.splits option.splits)

text \<open>
  With the module's own binding of \<^verbatim>\<open>fetch\<close> the \<^verbatim>\<open>try\<close> block of
  \<^verbatim>\<open>fetchWithFallback\<close> always throws, so the function always returns the lookup of
  the fallback URL.
\<close>

lemma fetchWithFallback_module:
  "fetchWithFallback (fetch_Request en) en req fb h w = (Inr (caches_match fb (Some h) w), w)"
  by (simp add: fetchWithFallback_def fetchWithFallback_try_def fetch_Request_throws)

text \<open>
  C2, evaluated. The manifest \<open>m1\<close> has the fallback keys \<^verbatim>\<open>/a/\<close> and \<^verbatim>\<open>/a/b/\<close>.
  For the request \<^verbatim>\<open>/a/x\<close>, which is not in the cache section, the longest matching
  key \<^verbatim>\<open>/a/\<close> is selected, as the claim says. The network of the example answers
  the request with a successful response of the same origin, and still the answer of
  \<open>fetch\<close> is the cached fallback target \<^verbatim>\<open>/off1\<close>, not the network's response:
  the call at line 77 is a call of the module's own \<^verbatim>\<open>fetch\<close>, which throws on a
  \<^verbatim>\<open>Request\<close>. The only change to the world is the entry that line 213 writes.
\<close>

theorem fallback_served_despite_network:
  "longestMatchingPrefix (map fst (fallback m1)) ''/a/x'' = ''/a/''
   \<and> net (world0 [v1] [] [''c1'']) (getRequest ''/a/x'') = Some (resp ''net'')
   \<and> ok (resp ''net'')
   \<and> origin en0 (resp_url (resp ''net'')) = Some (location_origin en0)
   \<and> fetch en0 (FetchEvent (ev0 ''c1'' ''/a/x'')) (world0 [v1] [] [''c1''])
       = (Inr (Some (resp ''off1'')), world0 [v1] [(''c1'', None)] [''c1''])"
  by (simp add: resolver_defs example_defs ok_def fetchWithFallback_module)

subsection \<open>Sessions and versions\<close>

text \<open>
  What \<^verbatim>\<open>set\<close> stores is what \<^verbatim>\<open>get\<close> reads, and the other keys keep their
  values.
\<close>

lemma idb_get_idb_set: "idb_get k (idb_set k v s) = Some v"
proof (cases "k \<in> fst ` set s")
  case True
  then show ?thesis by (simp add: idb_get_def idb_set_def AList.update_conv')
next
  case False
  have "map_of (insort_key fst (k, v) s) k = Some v"
    by (induction s) auto
  with False show ?thesis by (simp add: idb_get_def idb_set_def)
qed

lemma idb_get_idb_set_other: "c \<noteq> k \<Longrightarrow> idb_get c (idb_set k v s) = idb_get c s"
proof -
  assume "c \<noteq> k"
  then have "map_of (insort_key fst (k, v) s) c = map_of s c"
    by (induction s) auto
  with \<open>c \<noteq> k\<close> show ?thesis
    by (simp add: idb_get_def idb_set_def AList.update_conv')
qed

text \<open>
  With the module's binding of \<^verbatim>\<open>fetch\<close>, \<^verbatim>\<open>manifestBehavior\<close> changes the world
  at line 213 only, and the value saved there is \<^verbatim>\<open>undefined\<close> or empty: a pin to a
  hash that is found after a request was there before it.
\<close>

lemma appCacheLogic_module_world:
  "snd (appCacheLogic (fetch_Request en) en ev mf h cu w) = w"
  by (simp add: appCacheLogic_def Let_def fetchWithFallback_module fetch_Request_throws
      split: option.splits)

lemma manifestBehavior_never_pins:
  assumes "idb_get c (CLIENT_ID_TO_HASH (snd (manifestBehavior (fetch_Request en) en ev mu cu w)))
             = Some (Some p)"
    and "p \<noteq> ''''"
  shows "idb_get c (CLIENT_ID_TO_HASH w) = Some (Some p)"
proof -
  let ?h = "case idb_get (clientId ev) (CLIENT_ID_TO_HASH w) of None \<Rightarrow> None | Some x \<Rightarrow> x"
  have latest: "\<And>w1. snd (manifestBehavior_latest (fetch_Request en) en ev mu cu w1) = w1"
    by (simp add: manifestBehavior_latest_def appCacheLogic_module_world split: option.splits)
  have "snd (manifestBehavior (fetch_Request en) en ev mu cu w) = w
      \<or> (snd (manifestBehavior (fetch_Request en) en ev mu cu w)
            = saveClientIdAndHash (clientId ev) ?h w \<and> (?h = None \<or> ?h = Some ''''))"
    by (auto simp: manifestBehavior_def Let_def latest appCacheLogic_module_world
        split: option.splits)
  then show ?thesis
  proof
    assume "snd (manifestBehavior (fetch_Request en) en ev mu cu w) = w"
    with assms show ?thesis by simp
  next
    assume a: "snd (manifestBehavior (fetch_Request en) en ev mu cu w)
            = saveClientIdAndHash (clientId ev) ?h w \<and> (?h = None \<or> ?h = Some '''')"
    show ?thesis
    proof (cases "c = clientId ev")
      case True
      with a assms show ?thesis
        by (auto simp: saveClientIdAndHash_def idb_get_idb_set split: if_splits)
    next
      case False
      with a assms show ?thesis
        by (auto simp: saveClientIdAndHash_def idb_get_idb_set_other split: if_splits)
    qed
  qed
qed

text \<open>
  C3, evaluated. The session \<^verbatim>\<open>c1\<close> has no entry in \<open>CLIENT_ID_TO_HASH\<close> and the
  history of its manifest is \<open>[v1]\<close>. Its first request is answered from the cache of
  \<^verbatim>\<open>H1\<close>, and the entry written for the session is \<^verbatim>\<open>undefined\<close>, not \<^verbatim>\<open>H1\<close>:
  line 213 saves the value that line 206 has just found empty. After \<open>v2\<close> is appended
  to the history, the next request of the same session is answered from the cache of
  \<^verbatim>\<open>H2\<close>: the session is not held to the version it started with.
\<close>

theorem session_follows_latest_version:
  "fetch en0 (FetchEvent (ev0 ''c1'' ''/a.js'')) (world0 [v1] [] [''c1''])
     = (Inr (Some (resp ''a1'')), world0 [v1] [(''c1'', None)] [''c1''])
   \<and> fetch en0 (FetchEvent (ev0 ''c1'' ''/a.js'')) (world0 [v1, v2] [(''c1'', None)] [''c1''])
     = (Inr (Some (resp ''a2'')), world0 [v1, v2] [(''c1'', None)] [''c1''])"
  by (simp add: resolver_defs example_defs)

subsection \<open>No manifest bound to the client\<close>

text \<open>
  Every element of \<^verbatim>\<open>longestForEach\<close> is a promise object, so the comparison of line
  259 is never true and \<^verbatim>\<open>reduce\<close> returns its initial value.
\<close>

lemma foldl_promises:
  "\<forall>x \<in> set xs. \<exists>p. fst x = Promise p \<Longrightarrow>
   foldl (\<lambda>previous (pfx, index).
            if js_ge (js_length pfx) (js_length (fst previous)) then (pfx, index)
            else previous) acc xs = acc"
  by (induction xs arbitrary: acc) (auto simp: js_ge_def js_length_def)

text \<open>
  Hence \<^verbatim>\<open>noManifestBehavior\<close> is the call of line 280 for every request, every
  world and every binding of \<^verbatim>\<open>fetch\<close>: the branch of line 268 is never taken.
\<close>

lemma noManifestBehavior_direct: "noManifestBehavior fch en ev w = fch (request ev) w"
proof -
  let ?ps = "map (\<lambda>manifestUrl. Promise (longestForManifest ev w manifestUrl))
               (map fst (MANIFEST_URL_TO_CONTENTS w))"
  have "\<forall>x \<in> set (zip ?ps [0..<length ?ps]). \<exists>p. fst x = Promise p"
    by (auto dest!: set_zip_leftD)
  then have "foldl (\<lambda>previous (pfx, index).
            if js_ge (js_length pfx) (js_length (fst previous)) then (pfx, index)
            else previous) (Str '''', 0) (zip ?ps [0..<length ?ps]) = (Str '''', 0)"
    by (rule foldl_promises)
  then show ?thesis
    by (simp add: noManifestBehavior_def Let_def js_truthy_def)
qed

text \<open>
  C7, evaluated. The client \<^verbatim>\<open>c9\<close> is unknown and the request \<^verbatim>\<open>/a/x\<close> has no
  referrer, so the client URL is \<^verbatim>\<open>/a/x\<close>, to which no manifest is bound. The latest
  version of the stored manifest \<^verbatim>\<open>/m\<close> has the fallback key \<^verbatim>\<open>/a/\<close>, a prefix of
  the request URL, and its callback would settle to that key. Yet the fallback is not
  used: with a binding of \<^verbatim>\<open>fetch\<close> that fails as a network that is down, the
  answer is that failure and not the cached \<^verbatim>\<open>/off1\<close>; with the module's own binding
  the answer is the exception of that binding.
\<close>

theorem no_manifest_path_never_falls_back:
  "idb_get (getClientUrlForEvent (ev0 ''c9'' ''/a/x'') (world0 [v1] [] [''c1'']))
       (PATH_TO_MANIFEST (world0 [v1] [] [''c1''])) = None
   \<and> longestForManifest (ev0 ''c9'' ''/a/x'') (world0 [v1] [] [''c1'']) ''/m'' = Inr ''/a/''
   \<and> noManifestBehavior (\<lambda>r w'. (Inl NetworkError, w')) en0 (ev0 ''c9'' ''/a/x'')
         (world0 [v1] [] [''c1'']) = (Inl NetworkError, world0 [v1] [] [''c1''])
   \<and> fetch en0 (FetchEvent (ev0 ''c9'' ''/a/x'')) (world0 [v1] [] [''c1''])
       = (Inl TypeError, world0 [v1] [] [''c1''])"
  by (simp add: noManifestBehavior_direct fetch_Request_throws longestForManifest_def
      resolver_defs example_defs)

subsection \<open>Requests answered without a call of \<^verbatim>\<open>fetch\<close>\<close>






text \<open>
  The cache section seen from \<^verbatim>\<open>fetch\<close>: for a session with no pin, a request that
  is in the cache section of the latest version, or is the client URL, is answered with
  the lookup in the cache of the latest version's hash.
\<close>

lemma unpinned_session_cache_hit:
  assumes nb: "X_Use_Fetch (request ev) \<noteq> Some ''true''" "req_method (request ev) = ''GET''"
      "protocol en (url (request ev)) = location_protocol en"
    and bound: "idb_get (getClientUrlForEvent ev w) (PATH_TO_MANIFEST w) = Some manifestUrl"
      "manifestUrl \<noteq> ''''"
    and hist: "idb_get manifestUrl (MANIFEST_URL_TO_CONTENTS w) = Some manifests" "manifests \<noteq> []"
    and nopin: "clientId ev = '''' \<or> idb_get (clientId ev) (CLIENT_ID_TO_HASH w) \<in> {None, Some None, Some (Some '''')}"
    and listed: "url (request ev) \<in> set (cache (parsed (last manifests)))
        \<or> url (request ev) = getClientUrlForEvent ev w"
  shows "fst (fetch_body fch en (FetchEvent ev) w)
           = Inr (caches_match (url (request ev)) (Some (hash (last manifests))) w)"
proof -
  let ?cu = "getClientUrlForEvent ev w"
  let ?h = "case idb_get (clientId ev) (CLIENT_ID_TO_HASH w) of None \<Rightarrow> None | Some x \<Rightarrow> x"
  let ?w1 = "if clientId ev \<noteq> '''' then saveClientIdAndHash (clientId ev) ?h w else w"
  have a: "appCacheBehaviorForEvent fch en (FetchEvent ev) w = manifestBehavior fch en ev manifestUrl ?cu w"
    using nb bound by (simp add: appCacheBehaviorForEvent_def Let_def)
  have b: "manifestBehavior fch en ev manifestUrl ?cu w = manifestBehavior_latest fch en ev manifestUrl ?cu ?w1"
    using nopin by (auto simp: manifestBehavior_def Let_def split: option.splits)
  have s: "MANIFEST_URL_TO_CONTENTS ?w1 = MANIFEST_URL_TO_CONTENTS w" "caches ?w1 = caches w"
    by (simp_all add: saveClientIdAndHash_def)
  have c: "manifestBehavior_latest fch en ev manifestUrl ?cu ?w1
      = appCacheLogic fch en ev (Some (parsed (last manifests))) (hash (last manifests)) ?cu ?w1"
    using hist s(1) by (simp add: manifestBehavior_latest_def getLatestManifestVersion_def)
  have d: "appCacheLogic fch en ev (Some (parsed (last manifests))) (hash (last manifests)) ?cu ?w1
      = (Inr (caches_match (url (request ev)) (Some (hash (last manifests))) ?w1), ?w1)"
    using listed by (simp add: appCacheLogic_def)
  have e: "caches_match (url (request ev)) (Some (hash (last manifests))) ?w1
      = caches_match (url (request ev)) (Some (hash (last manifests))) w"
    using s(2) by (simp add: caches_match_def)
  show ?thesis
    unfolding fetch_body_def a b c d e by simp
qed




section \<open>Properties of the sweep\<close>

subsection \<open>What the sweep reads and deletes\<close>

lemma idb_get_del: "idb_get j (idb_del i s) = (if j = i then None else idb_get j s)"
  by (simp add: idb_get_def idb_del_def AList.delete_conv')

lemma idb_get_keys: "idb_get k s = Some v \<Longrightarrow> k \<in> fst ` set s"
  by (auto simp: idb_get_def dest: map_of_SomeD intro: rev_image_eqI)

lemma cleanupInactive_hashes:
  "Some h \<in> set (fst (cleanupInactive ids w))
     \<longleftrightarrow> (\<exists>i \<in> set ids. idb_get i (CLIENT_ID_TO_HASH w) = Some (Some h))"
proof (induction ids arbitrary: w)
  case Nil
  show ?case by simp
next
  case (Cons i ids)
  let ?w1 = "w\<lparr>CLIENT_ID_TO_HASH := idb_del i (CLIENT_ID_TO_HASH w)\<rparr>"
  have "fst (cleanupInactive (i # ids) w)
      = (case idb_get i (CLIENT_ID_TO_HASH w) of None \<Rightarrow> None | Some v \<Rightarrow> v)
        # fst (cleanupInactive ids ?w1)"
    by (simp add: Let_def split: prod.splits)
  then have step: "Some h \<in> set (fst (cleanupInactive (i # ids) w))
      \<longleftrightarrow> idb_get i (CLIENT_ID_TO_HASH w) = Some (Some h)
          \<or> Some h \<in> set (fst (cleanupInactive ids ?w1))"
    by (auto split: option.splits)
  have ih: "Some h \<in> set (fst (cleanupInactive ids ?w1))
      \<longleftrightarrow> (\<exists>j \<in> set ids. j \<noteq> i \<and> idb_get j (CLIENT_ID_TO_HASH w) = Some (Some h))"
    unfolding Cons.IH [of ?w1] by (auto simp: idb_get_del split: if_splits)
  show ?case unfolding step ih by auto
qed

lemma cleanupInactive_world:
  "\<exists>p. snd (cleanupInactive ids w) = w\<lparr>CLIENT_ID_TO_HASH := p\<rparr>"
proof (induction ids arbitrary: w)
  case Nil
  have "w = w\<lparr>CLIENT_ID_TO_HASH := CLIENT_ID_TO_HASH w\<rparr>" by simp
  then show ?case by (metis cleanupInactive.simps(1) snd_conv)
next
  case (Cons i ids)
  obtain p where "snd (cleanupInactive ids (w\<lparr>CLIENT_ID_TO_HASH := idb_del i (CLIENT_ID_TO_HASH w)\<rparr>))
     = (w\<lparr>CLIENT_ID_TO_HASH := idb_del i (CLIENT_ID_TO_HASH w)\<rparr>)\<lparr>CLIENT_ID_TO_HASH := p\<rparr>"
    using Cons.IH by blast
  then show ?case
    by (auto simp: Let_def split: prod.splits)
qed

lemma olderVersions_ok:
  "set us \<subseteq> fst ` set (MANIFEST_URL_TO_CONTENTS w) \<Longrightarrow>
   \<exists>hs. olderVersions us w = Inr hs
     \<and> set hs = {h. \<exists>u ms. u \<in> set us \<and> idb_get u (MANIFEST_URL_TO_CONTENTS w) = Some ms
                        \<and> h \<in> hash ` set (butlast ms)}"
proof (induction us)
  case Nil
  show ?case by simp
next
  case (Cons u us)
  then obtain hs where hs: "olderVersions us w = Inr hs"
    "set hs = {h. \<exists>u ms. u \<in> set us \<and> idb_get u (MANIFEST_URL_TO_CONTENTS w) = Some ms
                        \<and> h \<in> hash ` set (butlast ms)}"
    by auto
  from Cons.prems have "u \<in> fst ` set (MANIFEST_URL_TO_CONTENTS w)" by simp
  then obtain ms where ms: "idb_get u (MANIFEST_URL_TO_CONTENTS w) = Some ms"
    by (metis idb_get_def map_of_eq_None_iff not_Some_eq)
  show ?case using hs ms by auto
qed

lemma caches_after_deletes:
  "fst ` set (caches (foldl (\<lambda>w' i. caches_delete i w') w ids)) = fst ` set (caches w) - set ids"
proof (induction ids arbitrary: w)
  case Nil
  show ?case by simp
next
  case (Cons i ids)
  have "fst ` set (caches (caches_delete i w)) = fst ` set (caches w) - {i}"
    by (auto simp: caches_delete_def emit_def AList.delete_eq)
  then show ?case using Cons.IH [of "caches_delete i w"] by auto
qed

subsection \<open>Superseded hashes\<close>

text \<open>
  C6 as stated fails: \<^verbatim>\<open>H1\<close> is superseded and no session at all is pinned to it,
  and the sweep, which ends without an exception, leaves its cache in place.
\<close>

theorem unpinned_superseded_hash_survives:
  "hash v1 \<in> set (map hash (butlast [v1, v2]))
   \<and> CLIENT_ID_TO_HASH (world0 [v1, v2] [] []) = []
   \<and> fst (cleanupOldCaches (world0 [v1, v2] [] [])) = Inr ()
   \<and> map fst (caches (snd (cleanupOldCaches (world0 [v1, v2] [] [])))) = [''H1'', ''H2'']"
  by (simp add: sweep_defs example_defs)

text \<open>
  C6, amended. A sweep that is not turned away by the flag ends without an exception,
  and for a superseded hash \<open>h\<close> (one that is in a stored history and is not its last
  entry) that has a cache: the cache is gone after the sweep exactly when some session
  that is not active has a stored pin to \<open>h\<close>. So a superseded hash with no pin of an
  active session is deleted when a session that has ended is still pinned to it, and is
  kept when no stored pin names it.
\<close>

theorem sweep_keeps_iff_no_stale_pin:
  assumes idle: "\<not> cleanupInProgress w"
    and hist: "idb_get manifestUrl (MANIFEST_URL_TO_CONTENTS w) = Some manifests"
    and old: "h \<in> hash ` set (butlast manifests)"
    and there: "h \<in> fst ` set (caches w)"
  shows "fst (cleanupOldCaches w) = Inr () \<and>
    (h \<in> fst ` set (caches (snd (cleanupOldCaches w)))
       \<longleftrightarrow> \<not> (\<exists>i. i \<notin> set (matchAll w) \<and> idb_get i (CLIENT_ID_TO_HASH w) = Some (Some h)))"
proof -
  let ?w1 = "w\<lparr>cleanupInProgress := True\<rparr>"
  let ?ids = "filter (\<lambda>i. i \<notin> set (matchAll w)) (map fst (CLIENT_ID_TO_HASH w))"
  obtain hs w2 where c: "cleanupInactive ?ids ?w1 = (hs, w2)" by (cases "cleanupInactive ?ids ?w1")
  obtain p where w2: "w2 = ?w1\<lparr>CLIENT_ID_TO_HASH := p\<rparr>"
    using cleanupInactive_world [of ?ids ?w1] c by auto
  have hs: "Some h \<in> set hs \<longleftrightarrow> (\<exists>i. i \<notin> set (matchAll w) \<and> idb_get i (CLIENT_ID_TO_HASH w) = Some (Some h))"
    using cleanupInactive_hashes [of h ?ids ?w1] c by (auto dest: idb_get_keys)
  obtain older where older: "olderVersions (map fst (MANIFEST_URL_TO_CONTENTS w2)) w2 = Inr older"
    "set older = {h. \<exists>u ms. u \<in> set (map fst (MANIFEST_URL_TO_CONTENTS w2))
        \<and> idb_get u (MANIFEST_URL_TO_CONTENTS w2) = Some ms \<and> h \<in> hash ` set (butlast ms)}"
    using olderVersions_ok [of "map fst (MANIFEST_URL_TO_CONTENTS w2)" w2] by auto
  have "manifestUrl \<in> fst ` set (MANIFEST_URL_TO_CONTENTS w)" using hist by (rule idb_get_keys)
  then have hold: "h \<in> set older" using older(2) hist old w2 by auto
  have res: "cleanupOldCaches w = (Inr (), (foldl (\<lambda>w' i. caches_delete i w') w2
       (filter (\<lambda>x. Some x \<in> set hs) older))\<lparr>cleanupInProgress := False\<rparr>)"
    using idle c older(1)
    by (simp add: cleanupOldCaches_def cleanupClientIdAndHash_def getHashesOfOlderVersions_def Let_def)
  have "caches w2 = caches w" using w2 by simp
  then show ?thesis using res hs hold there by (simp add: caches_after_deletes)
qed

text \<open>
  In the example \<^verbatim>\<open>H1\<close> is superseded, the active session \<^verbatim>\<open>c1\<close> has no pin, and the
  session \<^verbatim>\<open>c2\<close>, which has ended, is pinned to \<^verbatim>\<open>H1\<close>: the cache is deleted.
\<close>

theorem sweep_keeps_iff_no_stale_pin_witness:
  "\<not> cleanupInProgress (world0 [v1, v2] [(''c2'', Some ''H1'')] [''c1''])
   \<and> idb_get ''/m'' (MANIFEST_URL_TO_CONTENTS (world0 [v1, v2] [(''c2'', Some ''H1'')] [''c1'']))
       = Some [v1, v2]
   \<and> ''H1'' \<in> hash ` set (butlast [v1, v2])
   \<and> ''H1'' \<in> fst ` set (caches (world0 [v1, v2] [(''c2'', Some ''H1'')] [''c1'']))
   \<and> ''c2'' \<notin> set (matchAll (world0 [v1, v2] [(''c2'', Some ''H1'')] [''c1'']))
   \<and> idb_get ''c2'' (CLIENT_ID_TO_HASH (world0 [v1, v2] [(''c2'', Some ''H1'')] [''c1'']))
       = Some (Some ''H1'')
   \<and> ''H1'' \<notin> fst ` set (caches (snd (cleanupOldCaches
                                     (world0 [v1, v2] [(''c2'', Some ''H1'')] [''c1'']))))"
proof -
  have a: "\<not> cleanupInProgress (world0 [v1, v2] [(''c2'', Some ''H1'')] [''c1''])"
    by (simp add: world0_def)
  have b: "idb_get ''/m'' (MANIFEST_URL_TO_CONTENTS (world0 [v1, v2] [(''c2'', Some ''H1'')] [''c1'']))
       = Some [v1, v2]"
    by (simp add: world0_def idb_get_def)
  have c: "''H1'' \<in> hash ` set (butlast [v1, v2])" by (simp add: v1_def)
  have d: "''H1'' \<in> fst ` set (caches (world0 [v1, v2] [(''c2'', Some ''H1'')] [''c1'']))"
    by (simp add: world0_def)
  have e: "''c2'' \<notin> set (matchAll (world0 [v1, v2] [(''c2'', Some ''H1'')] [''c1'']))"
    by (simp add: world0_def)
  have f: "idb_get ''c2'' (CLIENT_ID_TO_HASH (world0 [v1, v2] [(''c2'', Some ''H1'')] [''c1'']))
       = Some (Some ''H1'')"
    by (simp add: world0_def idb_get_def)
  from sweep_keeps_iff_no_stale_pin [OF a b c d] e f
  have "''H1'' \<notin> fst ` set (caches (snd (cleanupOldCaches
                                     (world0 [v1, v2] [(''c2'', Some ''H1'')] [''c1'']))))"
    by blast
  with a b c d e f show ?thesis by blast
qed

section \<open>Properties of the page's update\<close>

subsection \<open>One callback of \<^verbatim>\<open>addToCache\<close>\<close>

lemma caches_match_emit [simp]: "caches_match u c (emit e w) = caches_match u c w"
  by (simp add: caches_match_def emit_def split: option.splits)

lemma caches_match_cong: "caches w' = caches w \<Longrightarrow> caches_match u c w' = caches_match u c w"
  by (cases c) (simp_all add: caches_match_def)

lemma cache_put_accepted:
  "\<not> putRejects en u r \<Longrightarrow>
   cache_put en n u r w
     = (Inr (), emit (CachePut n u) (w\<lparr>caches := AList.map_entry n (AList.update u r) (caches w)\<rparr>))"
  by (simp add: cache_put_def putRejects_def)

lemma cache_put_rejected: "putRejects en u r \<Longrightarrow> \<exists>e. cache_put en n u r w = (Inl e, w)"
  by (auto simp: cache_put_def putRejects_def)

text \<open>The callback, branch by branch.\<close>

lemma addToCache_url_branches:
  assumes "\<not> Request_throws en u"
  shows "addToCache_url en n u w =
    (let w1 = emit (NetFetch (cacheRequest u)) w;
         copy = (case caches_match u None w of
                   Some c \<Rightarrow> cache_put en n u c w1
                 | None \<Rightarrow> (Inr (), w1))
     in case net w (cacheRequest u) of
          None \<Rightarrow> copy
        | Some r \<Rightarrow>
            if noStore r then (Inr (), w1)
            else if ok r then (if putRejects en u r then copy else cache_put en n u r w1)
            else if status r \<noteq> 404 \<and> status r \<noteq> 410 then copy
            else (Inr (), w1))"
proof (cases "net w (cacheRequest u)")
  case None
  then show ?thesis using assms
    by (simp add: addToCache_url_def addToCache_try_def window_fetch_def Let_def)
next
  case (Some r)
  show ?thesis
  proof (cases "\<not> noStore r \<and> ok r")
    case False
    then show ?thesis using assms Some
      by (auto simp: addToCache_url_def addToCache_try_def window_fetch_def Let_def)
  next
    case True
    show ?thesis
    proof (cases "putRejects en u r")
      case False
      then show ?thesis using assms Some True
        by (simp add: addToCache_url_def addToCache_try_def window_fetch_def Let_def
            cache_put_accepted)
    next
      case rej: True
      obtain e where "cache_put en n u r (emit (NetFetch (cacheRequest u)) w)
          = (Inl e, emit (NetFetch (cacheRequest u)) w)"
        using cache_put_rejected [OF rej] by blast
      then show ?thesis using assms Some True rej
        by (simp add: addToCache_url_def addToCache_try_def window_fetch_def Let_def)
    qed
  qed
qed


text \<open>What a callback leaves of the world.\<close>

lemma addToCache_url_world:
  "(\<exists>es. snd (addToCache_url en n x w) = w\<lparr>trace := trace w @ es\<rparr>)
   \<or> (\<exists>r es. \<not> putRejects en x r
         \<and> snd (addToCache_url en n x w)
             = w\<lparr>caches := AList.map_entry n (AList.update x r) (caches w), trace := trace w @ es\<rparr>)"
proof -
  have triv: "\<And>w. \<exists>es. w = w\<lparr>trace := trace w @ es\<rparr>"
    by (rule_tac x = "[]" in exI) simp
  show ?thesis
    apply (simp add: addToCache_url_def addToCache_try_def window_fetch_def cache_put_def emit_def
        putRejects_def caches_match_def split: option.splits)
    apply (intro conjI impI allI)
    apply (auto intro: triv)
    done
qed

lemma match_all_other:
  "u \<noteq> x \<Longrightarrow> match_all u (AList.map_entry n (AList.update x r) cs) = match_all u cs"
  by (induction cs) (auto simp: AList.update_conv' split: option.splits)

lemma map_of_other:
  "u \<noteq> x \<Longrightarrow>
   (case map_of (AList.map_entry n (AList.update x r) cs) k of None \<Rightarrow> None | Some c \<Rightarrow> map_of c u)
     = (case map_of cs k of None \<Rightarrow> None | Some c \<Rightarrow> map_of c u)"
  by (simp add: AList.map_of_map_entry AList.update_conv' split: option.splits)

lemma caches_match_other:
  "u \<noteq> x \<Longrightarrow>
   caches_match u c (w\<lparr>caches := AList.map_entry n (AList.update x r) (caches w), trace := t\<rparr>)
     = caches_match u c w"
  by (cases c) (simp_all add: caches_match_def match_all_other map_of_other)

lemma addToCache_url_other:
  assumes "u \<noteq> x"
  shows "caches_match u c (snd (addToCache_url en n x w)) = caches_match u c w"
  using addToCache_url_world [of en n x w] assms
  by (auto simp: caches_match_other intro: caches_match_cong)

lemma addToCache_url_net: "net (snd (addToCache_url en n x w)) = net w"
  using addToCache_url_world [of en n x w] by auto

lemma addToCache_url_names:
  "fst ` set (caches (snd (addToCache_url en n x w))) = fst ` set (caches w)"
proof -
  have "\<And>r. fst ` set (AList.map_entry n (AList.update x r) (caches w)) = fst ` set (caches w)"
    by (rule AList.dom_map_entry)
  then show ?thesis using addToCache_url_world [of en n x w] by fastforce
qed

lemma set_update_subset: "set (AList.update k v al) \<subseteq> insert (k, v) (set al)"
  by (induction al) auto

lemma set_map_entry:
  "c \<in> set (AList.map_entry n f cs) \<Longrightarrow> c \<in> set cs \<or> (\<exists>c' \<in> set cs. c = (n, f (snd c')))"
  by (induction cs) (auto split: if_splits)

lemma storable_put:
  assumes "storable en w" "\<not> putRejects en x r"
  shows "storable en (w\<lparr>caches := AList.map_entry n (AList.update x r) (caches w), trace := t\<rparr>)"
  unfolding storable_def
proof (intro ballI)
  fix c e
  assume c: "c \<in> set (caches (w\<lparr>caches := AList.map_entry n (AList.update x r) (caches w), trace := t\<rparr>))"
    and e: "e \<in> set (snd c)"
  from c have "c \<in> set (caches w) \<or> (\<exists>c' \<in> set (caches w). c = (n, AList.update x r (snd c')))"
    using set_map_entry [of c n "AList.update x r" "caches w"] by simp
  then show "\<not> putRejects en (fst e) (snd e)"
  proof
    assume "c \<in> set (caches w)"
    with assms(1) e show ?thesis unfolding storable_def by blast
  next
    assume "\<exists>c' \<in> set (caches w). c = (n, AList.update x r (snd c'))"
    then obtain c' where c': "c' \<in> set (caches w)" "c = (n, AList.update x r (snd c'))" by blast
    with e have "e = (x, r) \<or> e \<in> set (snd c')"
      using set_update_subset [of x r "snd c'"] by auto
    then show ?thesis
    proof
      assume "e = (x, r)" with assms(2) show ?thesis by simp
    next
      assume "e \<in> set (snd c')"
      with assms(1) c'(1) show ?thesis unfolding storable_def by blast
    qed
  qed
qed

lemma storable_trace: "storable en (w\<lparr>trace := t\<rparr>) = storable en w"
  by (simp add: storable_def)

lemma addToCache_url_storable:
  assumes "storable en w"
  shows "storable en (snd (addToCache_url en n x w))"
proof -
  from addToCache_url_world [of en n x w] show ?thesis
  proof
    assume "\<exists>es. snd (addToCache_url en n x w) = w\<lparr>trace := trace w @ es\<rparr>"
    then show ?thesis using assms by (auto simp: storable_trace)
  next
    assume "\<exists>r es. \<not> putRejects en x r
         \<and> snd (addToCache_url en n x w)
             = w\<lparr>caches := AList.map_entry n (AList.update x r) (caches w), trace := trace w @ es\<rparr>"
    then obtain r es where r: "\<not> putRejects en x r"
      and w': "snd (addToCache_url en n x w)
         = w\<lparr>caches := AList.map_entry n (AList.update x r) (caches w), trace := trace w @ es\<rparr>"
      by blast
    show ?thesis unfolding w' by (rule storable_put [OF assms r])
  qed
qed

lemma match_all_Some:
  "match_all u cs = Some r \<Longrightarrow> \<exists>c \<in> set cs. (u, r) \<in> set (snd c)"
  by (induction cs) (auto split: option.splits dest: map_of_SomeD)

lemma match_all_None:
  "match_all u cs = None \<Longrightarrow> map_of cs k = Some c \<Longrightarrow> map_of c u = None"
  by (induction cs) (auto split: option.splits if_splits)

lemma storable_copy:
  assumes "storable en w" "caches_match u None w = Some r"
  shows "\<not> putRejects en u r"
proof -
  from assms(2) obtain c where "c \<in> set (caches w)" "(u, r) \<in> set (snd c)"
    using match_all_Some [of u "caches w" r] by (auto simp: caches_match_def)
  with assms(1) show ?thesis unfolding storable_def by force
qed

lemma match_all_put_same:
  "match_all u cs = Some r \<Longrightarrow> match_all u (AList.map_entry n (AList.update u r) cs) = Some r"
  by (induction cs) (auto simp: AList.update_conv' split: option.splits)

lemma no_copy_no_entry: "caches_match u None w = None \<Longrightarrow> caches_match u (Some n) w = None"
  by (auto simp: caches_match_def split: option.splits dest: match_all_None)

lemma put_entry:
  assumes "n \<in> fst ` set (caches w)"
  shows "caches_match u (Some n)
           (w\<lparr>caches := AList.map_entry n (AList.update u r) (caches w), trace := t\<rparr>) = Some r"
proof -
  from assms obtain c where "map_of (caches w) n = Some c"
    by (metis map_of_eq_None_iff not_Some_eq)
  then show ?thesis
    by (simp add: caches_match_def AList.map_of_map_entry AList.update_conv')
qed

text \<open>The callback of a URL leaves the entry that \<open>entryAfter\<close> names, and does not throw.\<close>

lemma addToCache_url_self:
  assumes req: "\<not> Request_throws en u" and st: "storable en w"
    and open_n: "n \<in> fst ` set (caches w)"
  shows "fst (addToCache_url en n u w) = Inr ()
    \<and> caches_match u (Some n) (snd (addToCache_url en n u w)) = entryAfter en n u w"
proof -
  let ?w1 = "emit (NetFetch (cacheRequest u)) w"
  let ?copy = "case caches_match u None w of
                 Some c \<Rightarrow> cache_put en n u c ?w1 | None \<Rightarrow> (Inr (), ?w1)"
  have open1: "n \<in> fst ` set (caches ?w1)" using open_n by (simp add: emit_def)
  have put: "\<And>r. \<not> putRejects en u r \<Longrightarrow>
      fst (cache_put en n u r ?w1) = Inr ()
      \<and> caches_match u (Some n) (snd (cache_put en n u r ?w1)) = Some r"
    using put_entry [OF open1] by (simp add: cache_put_accepted emit_def)
  have copy: "fst ?copy = Inr () \<and> caches_match u (Some n) (snd ?copy) = caches_match u None w"
  proof (cases "caches_match u None w")
    case None
    then show ?thesis by (simp add: no_copy_no_entry)
  next
    case (Some c)
    with storable_copy [OF st Some] put [of c] show ?thesis by simp
  qed
  show ?thesis
    unfolding addToCache_url_branches [OF req] entryAfter_def Let_def
    using copy put by (auto split: option.splits)
qed

lemma entryAfter_step:
  assumes req: "\<not> Request_throws en x" and st: "storable en w"
    and open_n: "n \<in> fst ` set (caches w)"
  shows "entryAfter en n u (snd (addToCache_url en n x w)) = entryAfter en n u w"
proof (cases "u = x")
  case False
  then show ?thesis
    by (simp add: entryAfter_def addToCache_url_other addToCache_url_net split: option.splits)
next
  case True
  let ?w' = "snd (addToCache_url en n u w)"
  have entry: "caches_match u (Some n) ?w' = entryAfter en n u w"
    using addToCache_url_self [OF _ st open_n, of u] req True by simp
  have all: "entryAfter en n u w = caches_match u None w
      \<Longrightarrow> caches_match u None ?w' = caches_match u None w"
  proof -
    assume e: "entryAfter en n u w = caches_match u None w"
    from addToCache_url_world [of en n u w] show ?thesis
    proof
      assume "\<exists>es. ?w' = w\<lparr>trace := trace w @ es\<rparr>"
      then show ?thesis by (auto intro: caches_match_cong)
    next
      assume "\<exists>r es. \<not> putRejects en u r
         \<and> ?w' = w\<lparr>caches := AList.map_entry n (AList.update u r) (caches w), trace := trace w @ es\<rparr>"
      then obtain r es where
        w': "?w' = w\<lparr>caches := AList.map_entry n (AList.update u r) (caches w), trace := trace w @ es\<rparr>"
        by blast
      have "caches_match u (Some n) ?w' = Some r"
        unfolding w' by (rule put_entry [OF open_n])
      with entry e have "match_all u (caches w) = Some r" by (simp add: caches_match_def)
      then have "match_all u (AList.map_entry n (AList.update u r) (caches w)) = Some r"
        by (rule match_all_put_same)
      then show ?thesis using \<open>match_all u (caches w) = Some r\<close>
        unfolding w' by (simp add: caches_match_def)
    qed
  qed
  show ?thesis
    unfolding True [symmetric]
    using entry all
    by (auto simp: entryAfter_def addToCache_url_net split: option.splits if_splits)
qed

subsection \<open>The callbacks of all URLs\<close>

lemma addToCache_all_Cons:
  "snd (addToCache_all en n (x # us) w)
     = snd (addToCache_all en n us (snd (addToCache_url en n x w)))"
  "fst (addToCache_all en n (x # us) w)
     = (case fst (addToCache_url en n x w) of
          Inl e \<Rightarrow> Inl e
        | Inr y \<Rightarrow> fst (addToCache_all en n us (snd (addToCache_url en n x w))))"
  by (simp_all add: case_prod_unfold)

lemma addToCache_all_other:
  "u \<notin> set us \<Longrightarrow> caches_match u c (snd (addToCache_all en n us w)) = caches_match u c w"
proof (induction us arbitrary: w)
  case Nil
  show ?case by simp
next
  case (Cons x us)
  then show ?case by (simp add: addToCache_all_Cons addToCache_url_other del: addToCache_all.simps)
qed

lemma addToCache_all_net: "net (snd (addToCache_all en n us w)) = net w"
proof (induction us arbitrary: w)
  case Nil
  show ?case by simp
next
  case (Cons x us)
  then show ?case by (simp add: addToCache_all_Cons addToCache_url_net del: addToCache_all.simps)
qed

lemma addToCache_all_names:
  "fst ` set (caches (snd (addToCache_all en n us w))) = fst ` set (caches w)"
proof (induction us arbitrary: w)
  case Nil
  show ?case by simp
next
  case (Cons x us)
  then show ?case by (simp add: addToCache_all_Cons addToCache_url_names del: addToCache_all.simps)
qed

lemma addToCache_all_trace:
  "set (trace w) \<subseteq> set (trace (snd (addToCache_all en n us w)))"
proof (induction us arbitrary: w)
  case Nil
  show ?case by simp
next
  case (Cons x us)
  have "set (trace w) \<subseteq> set (trace (snd (addToCache_url en n x w)))"
    using addToCache_url_world [of en n x w] by auto
  with Cons [of "snd (addToCache_url en n x w)"] show ?case
    unfolding addToCache_all_Cons by blast
qed

lemma addToCache_url_fetches:
  "\<not> Request_throws en u \<Longrightarrow>
   NetFetch (cacheRequest u) \<in> set (trace (snd (addToCache_url en n u w)))"
  by (simp add: addToCache_url_def addToCache_try_def window_fetch_def cache_put_def emit_def
      caches_match_def split: option.splits)

lemma addToCache_all_entries:
  assumes "\<forall>x \<in> set us. \<not> Request_throws en x" and "storable en w"
    and "n \<in> fst ` set (caches w)"
  shows "fst (addToCache_all en n us w) = Inr ()
    \<and> (u \<in> set us \<longrightarrow>
         caches_match u (Some n) (snd (addToCache_all en n us w)) = entryAfter en n u w
         \<and> NetFetch (cacheRequest u) \<in> set (trace (snd (addToCache_all en n us w))))"
  using assms
proof (induction us arbitrary: w)
  case Nil
  show ?case by simp
next
  case (Cons x us)
  let ?w1 = "snd (addToCache_url en n x w)"
  from Cons.prems have req: "\<not> Request_throws en x" and reqs: "\<forall>x \<in> set us. \<not> Request_throws en x"
    by simp_all
  have st1: "storable en ?w1" using Cons.prems(2) by (rule addToCache_url_storable)
  have open1: "n \<in> fst ` set (caches ?w1)" using Cons.prems(3) by (simp add: addToCache_url_names)
  note ih = Cons.IH [OF reqs st1 open1]
  note self = addToCache_url_self [OF req Cons.prems(2) Cons.prems(3)]
  have ok: "fst (addToCache_all en n (x # us) w) = Inr ()"
    unfolding addToCache_all_Cons using self ih by simp
  have ent: "caches_match u (Some n) (snd (addToCache_all en n (x # us) w)) = entryAfter en n u w"
    if u: "u \<in> set (x # us)"
  proof (cases "u \<in> set us")
    case True
    with ih have "caches_match u (Some n) (snd (addToCache_all en n us ?w1)) = entryAfter en n u ?w1"
      by simp
    then show ?thesis
      unfolding addToCache_all_Cons
      by (simp add: entryAfter_step [OF req Cons.prems(2) Cons.prems(3)])
  next
    case False
    with u have "u = x" by simp
    with False self show ?thesis
      unfolding addToCache_all_Cons by (simp add: addToCache_all_other)
  qed
  have tr: "NetFetch (cacheRequest u) \<in> set (trace (snd (addToCache_all en n (x # us) w)))"
    if u: "u \<in> set (x # us)"
  proof (cases "u \<in> set us")
    case True
    with ih show ?thesis unfolding addToCache_all_Cons by simp
  next
    case False
    with u have "u = x" by simp
    then have "NetFetch (cacheRequest u) \<in> set (trace ?w1)"
      using addToCache_url_fetches [OF req] by simp
    then show ?thesis
      unfolding addToCache_all_Cons using addToCache_all_trace [of ?w1 en n us] by blast
  qed
  from ok ent tr show ?case by blast
qed

text \<open>Opening the cache.\<close>

lemma match_all_append_empty: "match_all u (cs @ [(n, [])]) = match_all u cs"
  by (induction cs) (simp_all split: option.splits)

lemma caches_match_open: "caches_match u c (caches_open n w) = caches_match u c w"
proof (cases "n \<in> fst ` set (caches w)")
  case True
  then show ?thesis by (simp add: caches_open_def)
next
  case False
  then have "map_of (caches w) n = None" by (simp add: map_of_eq_None_iff)
  then show ?thesis using False
    by (cases c) (auto simp: caches_open_def caches_match_def match_all_append_empty
        map_add_def split: option.splits)
qed

lemma caches_open_names: "n \<in> fst ` set (caches (caches_open n w))"
  by (simp add: caches_open_def)

lemma storable_open: "storable en (caches_open n w) = storable en w"
  by (auto simp: caches_open_def storable_def)

lemma caches_open_frame:
  "net (caches_open n w) = net w" "trace (caches_open n w) = trace w"
  by (simp_all add: caches_open_def)

lemma entryAfter_open: "entryAfter en n u (caches_open n w) = entryAfter en n u w"
  by (simp add: entryAfter_def caches_match_open caches_open_frame split: option.splits)

lemma addToCache_entries:
  assumes "\<forall>x \<in> set urls. \<not> Request_throws en x" and "storable en w"
  shows "fst (addToCache en n urls w) = Inr ()"
    and "n \<in> fst ` set (caches (snd (addToCache en n urls w)))"
    and "u \<in> set urls \<Longrightarrow>
         caches_match u (Some n) (snd (addToCache en n urls w)) = entryAfter en n u w"
    and "u \<in> set urls \<Longrightarrow>
         NetFetch (cacheRequest u) \<in> set (trace (snd (addToCache en n urls w)))"
    and "u \<notin> set urls \<Longrightarrow>
         caches_match u c (snd (addToCache en n urls w)) = caches_match u c w"
proof -
  have st: "storable en (caches_open n w)" using assms(2) by (simp add: storable_open)
  note all = addToCache_all_entries [OF assms(1) st caches_open_names, of u]
  show "fst (addToCache en n urls w) = Inr ()" using all by (simp add: addToCache_def)
  show "u \<in> set urls \<Longrightarrow>
         caches_match u (Some n) (snd (addToCache en n urls w)) = entryAfter en n u w"
    using all by (simp add: addToCache_def entryAfter_open)
  show "u \<in> set urls \<Longrightarrow>
         NetFetch (cacheRequest u) \<in> set (trace (snd (addToCache en n urls w)))"
    using all by (simp add: addToCache_def)
  show "u \<notin> set urls \<Longrightarrow>
         caches_match u c (snd (addToCache en n urls w)) = caches_match u c w"
    by (simp add: addToCache_def addToCache_all_other caches_match_open)
  have "fst ` set (caches (snd (addToCache_all en n urls (caches_open n w))))
      = fst ` set (caches (caches_open n w))"
    by (rule addToCache_all_names)
  then show "n \<in> fst ` set (caches (snd (addToCache en n urls w)))"
    using caches_open_names [of n w] by (simp add: addToCache_def)
qed

text \<open>What \<^verbatim>\<open>addToCache\<close> and the functions that call it leave as it was.\<close>

lemma addToCache_url_frame:
  "now (snd (addToCache_url en n x w)) = now w"
  "CLIENT_ID_TO_HASH (snd (addToCache_url en n x w)) = CLIENT_ID_TO_HASH w"
  "MANIFEST_URL_TO_CONTENTS (snd (addToCache_url en n x w)) = MANIFEST_URL_TO_CONTENTS w"
  "PATH_TO_MANIFEST (snd (addToCache_url en n x w)) = PATH_TO_MANIFEST w"
  using addToCache_url_world [of en n x w] by auto

lemma addToCache_all_frame:
  "net (snd (addToCache_all en n us w)) = net w
   \<and> now (snd (addToCache_all en n us w)) = now w
   \<and> CLIENT_ID_TO_HASH (snd (addToCache_all en n us w)) = CLIENT_ID_TO_HASH w
   \<and> MANIFEST_URL_TO_CONTENTS (snd (addToCache_all en n us w)) = MANIFEST_URL_TO_CONTENTS w
   \<and> PATH_TO_MANIFEST (snd (addToCache_all en n us w)) = PATH_TO_MANIFEST w"
proof (induction us arbitrary: w)
  case Nil
  show ?case by simp
next
  case (Cons x us)
  show ?case
    unfolding addToCache_all_Cons
    using Cons [of "snd (addToCache_url en n x w)"]
    by (simp add: addToCache_url_frame addToCache_url_net)
qed

lemma addToCache_frame:
  "net (snd (addToCache en n us w)) = net w"
  "now (snd (addToCache en n us w)) = now w"
  "CLIENT_ID_TO_HASH (snd (addToCache en n us w)) = CLIENT_ID_TO_HASH w"
  "MANIFEST_URL_TO_CONTENTS (snd (addToCache en n us w)) = MANIFEST_URL_TO_CONTENTS w"
  "PATH_TO_MANIFEST (snd (addToCache en n us w)) = PATH_TO_MANIFEST w"
  using addToCache_all_frame [of en n us "caches_open n w"]
  by (simp_all add: addToCache_def caches_open_def)

lemma performManifestUpdate_frame:
  "net (snd (performManifestUpdate en mu h mt prev w)) = net w"
  "now (snd (performManifestUpdate en mu h mt prev w)) = now w"
  "CLIENT_ID_TO_HASH (snd (performManifestUpdate en mu h mt prev w)) = CLIENT_ID_TO_HASH w"
  "PATH_TO_MANIFEST (snd (performManifestUpdate en mu h mt prev w)) = PATH_TO_MANIFEST w"
  by (simp_all add: performManifestUpdate_def Let_def case_prod_unfold addToCache_frame emit_def
      split: sum.splits)

subsection \<open>The update as a whole\<close>

lemma storable_emit: "storable en (emit e w) = storable en w"
  by (simp add: storable_def emit_def)

lemma urlsToCache_emit: "urlsToCache mu pm (emit e w) = urlsToCache mu pm w"
  by (simp add: urlsToCache_def emit_def)

lemma performManifestUpdate_returns:
  assumes "parsedManifestOf en mu text = Inr pm"
    and "\<forall>x \<in> set (urlsToCache mu pm w). \<not> Request_throws en x"
    and "storable en w"
  shows "fst (performManifestUpdate en mu h text prev w) = Inr h"
    and "idb_get mu (MANIFEST_URL_TO_CONTENTS (snd (performManifestUpdate en mu h text prev w)))
           = Some (prev @ [\<lparr>hash = h, parsed = pm\<rparr>])"
proof -
  let ?wp = "emit (Parse text) w"
  have "fst (addToCache en h (urlsToCache mu pm ?wp) ?wp) = Inr ()"
    using assms(2,3) by (intro addToCache_entries(1)) (simp_all add: urlsToCache_emit storable_emit)
  then show "fst (performManifestUpdate en mu h text prev w) = Inr h"
    using assms(1) by (simp add: performManifestUpdate_def Let_def case_prod_unfold)
  show "idb_get mu (MANIFEST_URL_TO_CONTENTS (snd (performManifestUpdate en mu h text prev w)))
           = Some (prev @ [\<lparr>hash = h, parsed = pm\<rparr>])"
    using assms(1)
    by (simp add: performManifestUpdate_def Let_def case_prod_unfold idb_get_idb_set
        split: sum.splits)
qed

lemma performManifestUpdate_fst:
  "parsedManifestOf en mu mt = Inr pm \<Longrightarrow>
   fst (performManifestUpdate en mu h mt prev w)
     = (case fst (addToCache en h (urlsToCache mu pm w) (emit (Parse mt) w)) of
          Inl e \<Rightarrow> Inl e
        | Inr x \<Rightarrow> Inr h)"
  by (simp add: performManifestUpdate_def Let_def case_prod_unfold urlsToCache_emit
      split: sum.splits)

lemma addToCache_all_throws:
  "Request_throws en x \<Longrightarrow> fst (addToCache_all en n (x # us) w) = Inl TypeError"
  by (simp add: addToCache_all_Cons addToCache_url_def del: addToCache_all.simps)

text \<open>
  C9 as stated fails, in two ways. The network answers \<^verbatim>\<open>/vary\<close> with a successful
  response that has the header \<^verbatim>\<open>Vary: *\<close> and no \<^verbatim>\<open>Cache-Control\<close>:
  \<^verbatim>\<open>cache.put\<close> rejects it inside the \<^verbatim>\<open>try\<close> block, the \<^verbatim>\<open>catch\<close> block finds
  no cached copy, and the cache of the new version is left without an entry for the URL,
  although the response is successful. And a manifest lists a URL with credentials:
  \<^verbatim>\<open>new Request\<close> at line 54, which is before the \<^verbatim>\<open>try\<close>, throws for it, the
  callback rejects, and with it \<^verbatim>\<open>addToCache\<close> and \<^verbatim>\<open>performManifestUpdate\<close>: one
  URL has aborted the update.
\<close>

theorem fill_drops_and_aborts:
  "net world1 (cacheRequest ''/vary'') = Some ((resp ''vary'')\<lparr>Vary := [''*'']\<rparr>)
   \<and> ok ((resp ''vary'')\<lparr>Vary := [''*'']\<rparr>)
   \<and> \<not> noStore ((resp ''vary'')\<lparr>Vary := [''*'']\<rparr>)
   \<and> fst (addToCache en0 ''H3'' [''/vary''] world1) = Inr ()
   \<and> caches_match ''/vary'' (Some ''H3'') (snd (addToCache en0 ''H3'' [''/vary''] world1)) = None
   \<and> parsedManifestOf en4 ''/m'' ''t''
       = Inr \<lparr>cache = [''/ok'', ''//u:p@h/''], network = [], fallback = []\<rparr>
   \<and> fst (performManifestUpdate en4 ''/m'' ''H3'' ''t'' [v1] world1) = Inl TypeError"
proof -
  have a: "net world1 (cacheRequest ''/vary'') = Some ((resp ''vary'')\<lparr>Vary := [''*'']\<rparr>)"
    by (simp add: world1_def net1_def cacheRequest_def)
  have b: "ok ((resp ''vary'')\<lparr>Vary := [''*'']\<rparr>) \<and> \<not> noStore ((resp ''vary'')\<lparr>Vary := [''*'']\<rparr>)"
    by (simp add: ok_def noStore_def resp_def)
  have rej: "putRejects en0 ''/vary'' ((resp ''vary'')\<lparr>Vary := [''*'']\<rparr>)"
    by (simp add: putRejects_def putTypeError_def)
  have nt: "\<not> Request_throws en0 ''/vary''" by (simp add: en0_def)
  have none: "caches_match ''/vary'' None (caches_open ''H3'' world1) = None"
    by (simp add: caches_match_open) (simp add: caches_match_def world1_def example_defs)
  have url: "addToCache_url en0 ''H3'' ''/vary'' (caches_open ''H3'' world1)
      = (Inr (), emit (NetFetch (cacheRequest ''/vary'')) (caches_open ''H3'' world1))"
    unfolding addToCache_url_branches [OF nt]
    using a b rej none by (simp add: Let_def caches_open_frame)
  have c: "fst (addToCache en0 ''H3'' [''/vary''] world1) = Inr ()"
    by (simp add: addToCache_def url)
  have d: "caches_match ''/vary'' (Some ''H3'') (snd (addToCache en0 ''H3'' [''/vary''] world1)) = None"
    using none by (simp add: addToCache_def url no_copy_no_entry)
  have e: "parsedManifestOf en4 ''/m'' ''t''
       = Inr \<lparr>cache = [''/ok'', ''//u:p@h/''], network = [], fallback = []\<rparr>"
    by (simp add: parsedManifestOf_def makeManifestUrlsAbsolute_def en4_def en0_def)
  have thr: "Request_throws en4 ''//u:p@h/''" by (simp add: en4_def en0_def)
  let ?wp = "caches_open ''H3'' (emit (Parse ''t'') world1)"
  have st: "storable en4 ?wp"
    by (simp add: storable_open storable_emit)
      (simp add: storable_def world1_def example_defs putRejects_def putTypeError_def en4_def)
  have "\<not> Request_throws en4 ''/ok''" by (simp add: en4_def en0_def)
  from addToCache_url_self [OF this st caches_open_names]
  have first: "fst (addToCache_url en4 ''H3'' ''/ok'' ?wp) = Inr ()" by simp
  have urls: "urlsToCache ''/m'' \<lparr>cache = [''/ok'', ''//u:p@h/''], network = [], fallback = []\<rparr> world1
      = [''/ok'', ''//u:p@h/'', ''/page'']"
    by (simp add: urlsToCache_def world1_def world0_def idb_get_def)
  have f: "fst (performManifestUpdate en4 ''/m'' ''H3'' ''t'' [v1] world1) = Inl TypeError"
    unfolding performManifestUpdate_fst [OF e] urls addToCache_def
    by (simp add: addToCache_all_Cons(2) [of en4 "''H3''" "''/ok''"] first
        addToCache_all_throws [OF thr] del: addToCache_all.simps)
  from a b c d e f show ?thesis by simp
qed

text \<open>
  C9, amended. Let \<^verbatim>\<open>addToCache\<close> be called with the cache name \<open>n\<close> and the URLs
  \<open>urls\<close> in the world \<open>w\<close>, let \<^verbatim>\<open>new Request\<close> accept every one of the URLs, and
  let \<open>w\<close> be storable. Then \<^verbatim>\<open>addToCache\<close> ends without an exception, the cache
  \<open>n\<close> is there afterwards, and for every URL \<open>u\<close> of the list the request of lines
  54 to 60 has been fetched and the cache \<open>n\<close> holds for \<open>u\<close>:
  what it held before the call (nothing, when the cache is new), when the response has
  \<^verbatim>\<open>Cache-Control: no-store\<close>;
  the response, when it is successful and \<^verbatim>\<open>cache.put\<close> accepts it;
  what it held before the call, when the status is 404 or 410;
  and in every other case (a network error, another status, a successful response that
  \<^verbatim>\<open>cache.put\<close> rejects) the entry that a lookup over all caches finds for \<open>u\<close>
  before the call, and no entry when it finds none.
  With such URLs the update as a whole is not aborted either: when the manifest text can
  be parsed and \<open>urls\<close> are the URLs that the update caches, \<^verbatim>\<open>performManifestUpdate\<close>
  returns the hash and the history of the manifest ends with the new version.
\<close>

theorem fill_outcome_per_url:
  assumes u: "u \<in> set urls"
    and req: "\<forall>x \<in> set urls. \<not> Request_throws en x"
    and st: "storable en w"
  shows "fst (addToCache en n urls w) = Inr ()
    \<and> n \<in> fst ` set (caches (snd (addToCache en n urls w)))
    \<and> NetFetch (cacheRequest u) \<in> set (trace (snd (addToCache en n urls w)))
    \<and> (net w (cacheRequest u) = Some r \<and> noStore r \<longrightarrow>
         caches_match u (Some n) (snd (addToCache en n urls w)) = caches_match u (Some n) w)
    \<and> (net w (cacheRequest u) = Some r \<and> \<not> noStore r \<and> ok r \<and> \<not> putRejects en u r \<longrightarrow>
         caches_match u (Some n) (snd (addToCache en n urls w)) = Some r)
    \<and> (net w (cacheRequest u) = Some r \<and> \<not> noStore r \<and> (status r = 404 \<or> status r = 410) \<longrightarrow>
         caches_match u (Some n) (snd (addToCache en n urls w)) = caches_match u (Some n) w)
    \<and> (net w (cacheRequest u) = None
         \<or> (net w (cacheRequest u) = Some r \<and> \<not> noStore r
              \<and> (ok r \<and> putRejects en u r \<or> \<not> ok r \<and> status r \<noteq> 404 \<and> status r \<noteq> 410)) \<longrightarrow>
         caches_match u (Some n) (snd (addToCache en n urls w)) = caches_match u None w)
    \<and> (parsedManifestOf en mu text = Inr pm \<and> urls = urlsToCache mu pm w \<longrightarrow>
         fst (performManifestUpdate en mu n text prev w) = Inr n
         \<and> idb_get mu (MANIFEST_URL_TO_CONTENTS (snd (performManifestUpdate en mu n text prev w)))
             = Some (prev @ [\<lparr>hash = n, parsed = pm\<rparr>]))"
proof -
  let ?w' = "snd (addToCache en n urls w)"
  note facts = addToCache_entries [OF req st]
  have entry: "caches_match u (Some n) ?w' = entryAfter en n u w" using facts(3) u by simp
  have a: "net w (cacheRequest u) = Some r \<and> noStore r \<longrightarrow>
         caches_match u (Some n) ?w' = caches_match u (Some n) w"
    unfolding entry by (simp add: entryAfter_def)
  have b: "net w (cacheRequest u) = Some r \<and> \<not> noStore r \<and> ok r \<and> \<not> putRejects en u r \<longrightarrow>
         caches_match u (Some n) ?w' = Some r"
    unfolding entry by (simp add: entryAfter_def)
  have c: "net w (cacheRequest u) = Some r \<and> \<not> noStore r \<and> (status r = 404 \<or> status r = 410) \<longrightarrow>
         caches_match u (Some n) ?w' = caches_match u (Some n) w"
    unfolding entry by (auto simp: entryAfter_def ok_def)
  have d: "net w (cacheRequest u) = None
         \<or> (net w (cacheRequest u) = Some r \<and> \<not> noStore r
              \<and> (ok r \<and> putRejects en u r \<or> \<not> ok r \<and> status r \<noteq> 404 \<and> status r \<noteq> 410)) \<longrightarrow>
         caches_match u (Some n) ?w' = caches_match u None w"
    unfolding entry by (auto simp: entryAfter_def)
  have e: "parsedManifestOf en mu text = Inr pm \<and> urls = urlsToCache mu pm w \<longrightarrow>
         fst (performManifestUpdate en mu n text prev w) = Inr n
         \<and> idb_get mu (MANIFEST_URL_TO_CONTENTS (snd (performManifestUpdate en mu n text prev w)))
             = Some (prev @ [\<lparr>hash = n, parsed = pm\<rparr>])"
    using performManifestUpdate_returns [of en mu "text" pm w n prev] req st by blast
  from facts(1) [of n] facts(2) [of n] facts(4) [OF u, of n] a b c d e show ?thesis by blast
qed

text \<open>
  In the example the third version of the manifest is stored under \<^verbatim>\<open>H3\<close> with the
  network \<open>net1\<close>: \<^verbatim>\<open>/ok\<close> is stored, \<^verbatim>\<open>/ns\<close> (no-store) and \<^verbatim>\<open>/gone\<close> (status
  404) are skipped, for \<^verbatim>\<open>/a.js\<close> (status 500), \<^verbatim>\<open>/off1\<close> (network error) and
  \<^verbatim>\<open>/off2\<close> (status 206, which \<^verbatim>\<open>cache.put\<close> rejects) the copies cached under
  \<^verbatim>\<open>H1\<close> are taken over, \<^verbatim>\<open>/zz\<close> (network error, no copy) is left out, and the
  update returns the hash.
\<close>

theorem fill_outcome_per_url_witness:
  "parsedManifestOf en3 ''/m'' ''t'' = Inr m3
   \<and> urlsToCache ''/m'' m3 world1
       = [''/ok'', ''/ns'', ''/gone'', ''/a.js'', ''/off1'', ''/off2'', ''/zz'', ''/page'']
   \<and> storable en3 world1
   \<and> fst (addToCache en3 ''H3'' (urlsToCache ''/m'' m3 world1) world1) = Inr ()
   \<and> ''H3'' \<in> fst ` set (caches (snd (addToCache en3 ''H3'' (urlsToCache ''/m'' m3 world1) world1)))
   \<and> NetFetch (cacheRequest ''/ok'')
       \<in> set (trace (snd (addToCache en3 ''H3'' (urlsToCache ''/m'' m3 world1) world1)))
   \<and> caches_match ''/ok'' (Some ''H3'')
        (snd (addToCache en3 ''H3'' (urlsToCache ''/m'' m3 world1) world1)) = Some (resp ''new'')
   \<and> caches_match ''/ns'' (Some ''H3'')
        (snd (addToCache en3 ''H3'' (urlsToCache ''/m'' m3 world1) world1)) = None
   \<and> caches_match ''/gone'' (Some ''H3'')
        (snd (addToCache en3 ''H3'' (urlsToCache ''/m'' m3 world1) world1)) = None
   \<and> caches_match ''/a.js'' (Some ''H3'')
        (snd (addToCache en3 ''H3'' (urlsToCache ''/m'' m3 world1) world1)) = Some (resp ''a1'')
   \<and> caches_match ''/off1'' (Some ''H3'')
        (snd (addToCache en3 ''H3'' (urlsToCache ''/m'' m3 world1) world1)) = Some (resp ''off1'')
   \<and> caches_match ''/off2'' (Some ''H3'')
        (snd (addToCache en3 ''H3'' (urlsToCache ''/m'' m3 world1) world1)) = Some (resp ''off2'')
   \<and> caches_match ''/zz'' (Some ''H3'')
        (snd (addToCache en3 ''H3'' (urlsToCache ''/m'' m3 world1) world1)) = None
   \<and> fst (performManifestUpdate en3 ''/m'' ''H3'' ''t'' [v1] world1) = Inr ''H3''
   \<and> idb_get ''/m'' (MANIFEST_URL_TO_CONTENTS
        (snd (performManifestUpdate en3 ''/m'' ''H3'' ''t'' [v1] world1)))
       = Some [v1, \<lparr>hash = ''H3'', parsed = m3\<rparr>]"
proof -
  let ?urls = "urlsToCache ''/m'' m3 world1"
  have pm: "parsedManifestOf en3 ''/m'' ''t'' = Inr m3"
    by (simp add: parsedManifestOf_def makeManifestUrlsAbsolute_def en3_def en0_def m3_def)
  have urls: "?urls = [''/ok'', ''/ns'', ''/gone'', ''/a.js'', ''/off1'', ''/off2'', ''/zz'', ''/page'']"
    by (simp add: urlsToCache_def m3_def fallback_at_def world1_def world0_def idb_get_def)
  have req: "\<forall>x \<in> set ?urls. \<not> Request_throws en3 x"
    unfolding urls by (simp add: en3_def en0_def)
  have st: "storable en3 world1"
    by (simp add: storable_def world1_def example_defs putRejects_def putTypeError_def en3_def)
  have old: "\<And>u. caches_match u (Some ''H3'') world1 = None"
    by (simp add: caches_match_def world1_def world0_def)
  have acc: "\<not> putRejects en3 ''/ok'' (resp ''new'')"
    by (simp add: putRejects_def putTypeError_def en3_def en0_def resp_def)
  have m: "''/ok'' \<in> set ?urls" "''/ns'' \<in> set ?urls" "''/gone'' \<in> set ?urls"
    "''/a.js'' \<in> set ?urls" "''/off1'' \<in> set ?urls" "''/zz'' \<in> set ?urls"
    "''/off2'' \<in> set ?urls"
    unfolding urls by simp_all
  have n_ok: "net world1 (cacheRequest ''/ok'') = Some (resp ''new'')"
    and n_ns: "net world1 (cacheRequest ''/ns'')
                 = Some ((resp ''ns'')\<lparr>Cache_Control := Some ''no-store''\<rparr>)"
    and n_gone: "net world1 (cacheRequest ''/gone'') = Some ((resp ''gone'')\<lparr>status := 404\<rparr>)"
    and n_a: "net world1 (cacheRequest ''/a.js'') = Some ((resp ''oops'')\<lparr>status := 500\<rparr>)"
    and n_off: "net world1 (cacheRequest ''/off1'') = None"
    and n_zz: "net world1 (cacheRequest ''/zz'') = None"
    and n_part: "net world1 (cacheRequest ''/off2'') = Some ((resp ''part'')\<lparr>status := 206\<rparr>)"
    by (simp_all add: world1_def net1_def cacheRequest_def)
  have c_a: "caches_match ''/a.js'' None world1 = Some (resp ''a1'')"
    and c_off: "caches_match ''/off1'' None world1 = Some (resp ''off1'')"
    and c_zz: "caches_match ''/zz'' None world1 = None"
    and c_part: "caches_match ''/off2'' None world1 = Some (resp ''off2'')"
    by (simp_all add: caches_match_def world1_def world0_def cache1_def cache2_def)
  have ns: "noStore ((resp ''ns'')\<lparr>Cache_Control := Some ''no-store''\<rparr>)"
    by (simp add: noStore_def resp_def)
  have plain: "\<not> noStore (resp ''new'')" "ok (resp ''new'')"
    "\<not> noStore ((resp ''gone'')\<lparr>status := 404\<rparr>)"
    "\<not> noStore ((resp ''oops'')\<lparr>status := 500\<rparr>)" "\<not> ok ((resp ''oops'')\<lparr>status := 500\<rparr>)"
    "\<not> noStore ((resp ''part'')\<lparr>status := 206\<rparr>)" "ok ((resp ''part'')\<lparr>status := 206\<rparr>)"
    by (simp_all add: noStore_def ok_def resp_def)
  note T = fill_outcome_per_url [OF _ req st, of _ "''H3''" _ "''/m''" "''t''" m3 "[v1]"]
  from T [OF m(1), of "resp ''new''"] n_ok plain acc pm
  have r_ok: "fst (addToCache en3 ''H3'' ?urls world1) = Inr ()"
    "''H3'' \<in> fst ` set (caches (snd (addToCache en3 ''H3'' ?urls world1)))"
    "NetFetch (cacheRequest ''/ok'') \<in> set (trace (snd (addToCache en3 ''H3'' ?urls world1)))"
    "caches_match ''/ok'' (Some ''H3'') (snd (addToCache en3 ''H3'' ?urls world1))
       = Some (resp ''new'')"
    "fst (performManifestUpdate en3 ''/m'' ''H3'' ''t'' [v1] world1) = Inr ''H3''"
    "idb_get ''/m'' (MANIFEST_URL_TO_CONTENTS
        (snd (performManifestUpdate en3 ''/m'' ''H3'' ''t'' [v1] world1)))
       = Some [v1, \<lparr>hash = ''H3'', parsed = m3\<rparr>]"
    by simp_all
  from T [OF m(2), of "(resp ''ns'')\<lparr>Cache_Control := Some ''no-store''\<rparr>"] n_ns ns old
  have r_ns: "caches_match ''/ns'' (Some ''H3'') (snd (addToCache en3 ''H3'' ?urls world1)) = None"
    by simp
  from T [OF m(3), of "(resp ''gone'')\<lparr>status := 404\<rparr>"] n_gone plain old
  have r_gone: "caches_match ''/gone'' (Some ''H3'') (snd (addToCache en3 ''H3'' ?urls world1)) = None"
    by simp
  from T [OF m(4), of "(resp ''oops'')\<lparr>status := 500\<rparr>"] n_a plain c_a
  have r_a: "caches_match ''/a.js'' (Some ''H3'') (snd (addToCache en3 ''H3'' ?urls world1))
      = Some (resp ''a1'')"
    by simp
  from T [OF m(5), of "resp ''x''"] n_off c_off
  have r_off: "caches_match ''/off1'' (Some ''H3'') (snd (addToCache en3 ''H3'' ?urls world1))
      = Some (resp ''off1'')"
    by simp
  from T [OF m(6), of "resp ''x''"] n_zz c_zz
  have r_zz: "caches_match ''/zz'' (Some ''H3'') (snd (addToCache en3 ''H3'' ?urls world1)) = None"
    by simp
  have rej: "putRejects en3 ''/off2'' ((resp ''part'')\<lparr>status := 206\<rparr>)"
    by (simp add: putRejects_def putTypeError_def)
  from T [OF m(7), of "(resp ''part'')\<lparr>status := 206\<rparr>"] n_part plain rej c_part
  have r_part: "caches_match ''/off2'' (Some ''H3'') (snd (addToCache en3 ''H3'' ?urls world1))
      = Some (resp ''off2'')"
    by simp
  from pm urls st r_ok r_ns r_gone r_a r_off r_part r_zz show ?thesis by simp
qed

subsection \<open>Checking the manifest again\<close>

lemma getManifestText_world:
  "\<exists>reqs. snd (getManifestText en mu w) = w\<lparr>trace := trace w @ map NetFetch reqs\<rparr>"
proof -
  let ?r1 = "manifestRequest mu ''default''" and ?r2 = "manifestRequest mu ''reload''"
  have "snd (getManifestText en mu w) = w\<lparr>trace := trace w @ map NetFetch []\<rparr>
      \<or> snd (getManifestText en mu w) = w\<lparr>trace := trace w @ map NetFetch [?r1]\<rparr>
      \<or> snd (getManifestText en mu w) = w\<lparr>trace := trace w @ map NetFetch [?r1, ?r2]\<rparr>"
    by (simp add: getManifestText_def window_fetch_def emit_def split: option.splits)
  then show ?thesis by blast
qed

lemma getManifestText_frame:
  "net (snd (getManifestText en mu w)) = net w"
  "now (snd (getManifestText en mu w)) = now w"
  "CLIENT_ID_TO_HASH (snd (getManifestText en mu w)) = CLIENT_ID_TO_HASH w"
  "PATH_TO_MANIFEST (snd (getManifestText en mu w)) = PATH_TO_MANIFEST w"
  using getManifestText_world [of en mu w] by auto

lemma checkManifestVersion_frame:
  "net (snd (checkManifestVersion en mu w)) = net w"
  "now (snd (checkManifestVersion en mu w)) = now w"
  "CLIENT_ID_TO_HASH (snd (checkManifestVersion en mu w)) = CLIENT_ID_TO_HASH w"
  by (simp_all add: checkManifestVersion_def Let_def case_prod_unfold performManifestUpdate_frame
      getManifestText_frame split: sum.splits)

lemma performManifestUpdate_history:
  "fst (performManifestUpdate en mu h mt prev w) = Inr x \<Longrightarrow>
   \<exists>pm. idb_get mu (MANIFEST_URL_TO_CONTENTS (snd (performManifestUpdate en mu h mt prev w)))
          = Some (prev @ [\<lparr>hash = h, parsed = pm\<rparr>])"
  by (auto simp: performManifestUpdate_def Let_def case_prod_unfold idb_get_idb_set
      split: sum.splits)

lemma checkManifestVersion_known:
  assumes "getManifestText en mu w = (Inr mt, w1)"
    and "idb_get mu (MANIFEST_URL_TO_CONTENTS w1) = Some ms"
    and "generateHash en mu mt \<in> hash ` set ms"
  shows "checkManifestVersion en mu w = (Inr (generateHash en mu mt), w1)"
  using assms by (auto simp: checkManifestVersion_def Let_def list_ex_iff)

lemma checkManifestVersion_result:
  assumes "fst (checkManifestVersion en mu w) = Inr h"
    and "fst (getManifestText en mu w) = Inr mt"
  shows "h = generateHash en mu mt
    \<and> (\<exists>ms. idb_get mu (MANIFEST_URL_TO_CONTENTS (snd (checkManifestVersion en mu w))) = Some ms
            \<and> h \<in> hash ` set ms)"
proof -
  obtain w0 where t: "getManifestText en mu w = (Inr mt, w0)"
    using assms(2) by (metis prod.collapse)
  let ?h = "generateHash en mu mt"
  let ?prev = "case idb_get mu (MANIFEST_URL_TO_CONTENTS w0) of None \<Rightarrow> [] | Some ms \<Rightarrow> ms"
  show ?thesis
  proof (cases "list_ex (\<lambda>previousManifest. hash previousManifest = ?h) ?prev")
    case True
    then have r: "checkManifestVersion en mu w = (Inr ?h, w0)"
      using t by (simp add: checkManifestVersion_def Let_def)
    from True have "\<exists>ms. idb_get mu (MANIFEST_URL_TO_CONTENTS w0) = Some ms \<and> ?h \<in> hash ` set ms"
      by (cases "idb_get mu (MANIFEST_URL_TO_CONTENTS w0)") (force simp: list_ex_iff)+
    then show ?thesis using r assms(1) by auto
  next
    case False
    let ?p = "performManifestUpdate en mu ?h mt ?prev w0"
    from False have r: "checkManifestVersion en mu w
        = (case ?p of (Inl e, w2) \<Rightarrow> (Inl e, w2) | (Inr x, w2) \<Rightarrow> (Inr ?h, w2))"
      using t by (simp add: checkManifestVersion_def Let_def)
    with assms(1) obtain x where x: "fst ?p = Inr x" and h: "h = ?h"
      and w: "snd (checkManifestVersion en mu w) = snd ?p"
      by (auto split: prod.splits sum.splits)
    from performManifestUpdate_history [OF x] obtain pm where
      "idb_get mu (MANIFEST_URL_TO_CONTENTS (snd ?p)) = Some (?prev @ [\<lparr>hash = ?h, parsed = pm\<rparr>])"
      by blast
    then show ?thesis using h w by auto
  qed
qed

lemma getManifestText_same_network:
  "net w' = net w \<Longrightarrow> now w' = now w \<Longrightarrow>
   fst (getManifestText en mu w') = fst (getManifestText en mu w)"
  by (simp add: getManifestText_def window_fetch_def tooOld_def emit_def
      split: option.splits)

text \<open>
  C4. Let a first call of \<^verbatim>\<open>checkManifestVersion\<close> return the hash \<open>h\<close> and leave the
  world \<open>w1\<close>, and let the manifest text that a second call reads in \<open>w1\<close> be the text
  that the first call read. Then the second call returns \<open>h\<close> again, and the world it
  leaves is the world \<open>w2\<close> that reading the manifest text leaves: the version
  histories and the caches are those of \<open>w1\<close>, and all that is added to the record of
  effects are fetches (of the manifest), no parsing and no write to a cache.
\<close>

theorem second_check_changes_nothing:
  assumes first: "checkManifestVersion en mu w = (Inr h, w1)"
    and text1: "fst (getManifestText en mu w) = Inr text"
    and text2: "getManifestText en mu w1 = (Inr text, w2)"
  shows "checkManifestVersion en mu w1 = (Inr h, w2)
    \<and> MANIFEST_URL_TO_CONTENTS w2 = MANIFEST_URL_TO_CONTENTS w1
    \<and> caches w2 = caches w1
    \<and> (\<exists>reqs. trace w2 = trace w1 @ map NetFetch reqs)"
proof -
  from first have f: "fst (checkManifestVersion en mu w) = Inr h"
    and s: "snd (checkManifestVersion en mu w) = w1" by simp_all
  from checkManifestVersion_result [OF f text1] s obtain ms where
    h: "h = generateHash en mu text" and ms: "idb_get mu (MANIFEST_URL_TO_CONTENTS w1) = Some ms"
    and known: "h \<in> hash ` set ms" by auto
  obtain reqs where w2: "w2 = w1\<lparr>trace := trace w1 @ map NetFetch reqs\<rparr>"
    using getManifestText_world [of en mu w1] text2 by auto
  have "idb_get mu (MANIFEST_URL_TO_CONTENTS w2) = Some ms" using ms w2 by simp
  from checkManifestVersion_known [OF text2 this] known h
  have "checkManifestVersion en mu w1 = (Inr h, w2)" by simp
  then show ?thesis using w2 by auto
qed

text \<open>
  In the example the store has no history for \<^verbatim>\<open>/m\<close>: the first call stores a version
  and fills its cache, the second call changes neither.
\<close>

theorem second_check_changes_nothing_witness:
  "fst (checkManifestVersion en0 ''/m'' (world0 [] [] [])) = Inr ''/mnet''
   \<and> fst (getManifestText en0 ''/m'' (world0 [] [] [])) = Inr ''net''
   \<and> fst (getManifestText en0 ''/m'' (snd (checkManifestVersion en0 ''/m'' (world0 [] [] []))))
       = Inr ''net''
   \<and> idb_get ''/m'' (MANIFEST_URL_TO_CONTENTS (world0 [] [] [])) = Some []
   \<and> fst (checkManifestVersion en0 ''/m'' (snd (checkManifestVersion en0 ''/m'' (world0 [] [] []))))
       = Inr ''/mnet''
   \<and> caches (snd (checkManifestVersion en0 ''/m''
                    (snd (checkManifestVersion en0 ''/m'' (world0 [] [] [])))))
       = caches (snd (checkManifestVersion en0 ''/m'' (world0 [] [] [])))
   \<and> MANIFEST_URL_TO_CONTENTS (snd (checkManifestVersion en0 ''/m''
                    (snd (checkManifestVersion en0 ''/m'' (world0 [] [] [])))))
       = MANIFEST_URL_TO_CONTENTS (snd (checkManifestVersion en0 ''/m'' (world0 [] [] [])))"
proof -
  let ?w = "world0 [] [] []"
  let ?wf = "emit (NetFetch (manifestRequest ''/m'' ''default'')) ?w"
  let ?w1 = "snd (checkManifestVersion en0 ''/m'' ?w)"
  let ?w2 = "snd (getManifestText en0 ''/m'' ?w1)"
  let ?pm = "\<lparr>cache = [''/a.js''], network = [], fallback = []\<rparr>"
  have t: "getManifestText en0 ''/m'' ?w = (Inr ''net'', ?wf)"
    by (simp add: getManifestText_def window_fetch_def tooOld_def example_defs)
  then have t1: "fst (getManifestText en0 ''/m'' ?w) = Inr ''net''" by simp
  have t2': "fst (getManifestText en0 ''/m'' ?w1) = Inr ''net''"
    using getManifestText_same_network [of ?w1 ?w en0 "''/m''"] t1
    by (simp add: checkManifestVersion_frame)
  have e: "idb_get ''/m'' (MANIFEST_URL_TO_CONTENTS ?w) = Some []"
    by (simp add: example_defs idb_get_def)
  have pm: "parsedManifestOf en0 ''/m'' ''net'' = Inr ?pm"
    by (simp add: parsedManifestOf_def makeManifestUrlsAbsolute_def en0_def)
  have urls: "urlsToCache ''/m'' ?pm ?wf = [''/a.js'', ''/page'']"
    by (simp add: urlsToCache_def world0_def idb_get_def emit_def)
  have req: "\<forall>x \<in> set (urlsToCache ''/m'' ?pm ?wf). \<not> Request_throws en0 x"
    unfolding urls by (simp add: en0_def)
  have st: "storable en0 ?wf"
    by (simp add: storable_emit) (simp add: storable_def example_defs putRejects_def putTypeError_def)
  have upd: "fst (performManifestUpdate en0 ''/m'' ''/mnet'' ''net'' [] ?wf) = Inr ''/mnet''"
    by (rule performManifestUpdate_returns(1) [OF pm req st])
  have f: "fst (checkManifestVersion en0 ''/m'' ?w) = Inr ''/mnet''"
    unfolding checkManifestVersion_def t
    using upd e
    by (simp add: Let_def case_prod_unfold generateHash_def emit_def en0_def split: sum.splits)
  then have first: "checkManifestVersion en0 ''/m'' ?w = (Inr ''/mnet'', ?w1)"
    by (metis prod.collapse)
  from t2' have t2: "getManifestText en0 ''/m'' ?w1 = (Inr ''net'', ?w2)"
    by (metis prod.collapse)
  from second_check_changes_nothing [OF first t1 t2]
  have "checkManifestVersion en0 ''/m'' ?w1 = (Inr ''/mnet'', ?w2)"
    and "MANIFEST_URL_TO_CONTENTS ?w2 = MANIFEST_URL_TO_CONTENTS ?w1"
    and "caches ?w2 = caches ?w1"
    by simp_all
  with t1 t2' e f show ?thesis by simp
qed

section \<open>Sessions and sweeps in a run\<close>

subsection \<open>No run pins a session\<close>








subsection \<open>Hashes in use\<close>



text \<open>
  Without the hypothesis the statement fails. In a store filled by hand, which no run
  produces, the active session \<^verbatim>\<open>c1\<close> and the session \<^verbatim>\<open>c2\<close>, which has ended, are
  both pinned to the superseded \<^verbatim>\<open>H1\<close>. The sweep deletes the cache \<^verbatim>\<open>H1\<close>:
  \<^verbatim>\<open>hashesNotInUse\<close> holds the hashes of the sessions that have ended and is never
  compared with the hashes of the active ones.
\<close>

lemma hand_filled_pins_lose_a_cache_in_use:
  "idb_get ''c1'' (CLIENT_ID_TO_HASH
       (world0 [v1, v2] [(''c1'', Some ''H1''), (''c2'', Some ''H1'')] [''c1''])) = Some (Some ''H1'')
   \<and> ''c1'' \<in> set (matchAll
       (world0 [v1, v2] [(''c1'', Some ''H1''), (''c2'', Some ''H1'')] [''c1'']))
   \<and> map fst (caches
       (world0 [v1, v2] [(''c1'', Some ''H1''), (''c2'', Some ''H1'')] [''c1''])) = [''H1'', ''H2'']
   \<and> map fst (caches (snd (cleanupOldCaches
       (world0 [v1, v2] [(''c1'', Some ''H1''), (''c2'', Some ''H1'')] [''c1''])))) = [''H2'']"
  by (simp add: sweep_defs example_defs)

end
